theory Spec2Isabelle
  imports Complex_Main "HOL-Library.Multiset" "HOL-Library.Signed_Division"
begin

section \<open>Conventions of the embedding\<close>

text \<open>
  The development embeds the routing core of the aggregator: the liquidity graph
  (\<^verbatim>\<open>liquidity-graph.service.ts\<close>), the pathfinder and the route quoting service
  (\<^verbatim>\<open>pathfinder.service.ts\<close>, \<^verbatim>\<open>route-quote.service.ts\<close>), the direct venue quoting
  service (\<^verbatim>\<open>dex-quote.service.ts\<close>), the per-venue split optimizer
  (\<^verbatim>\<open>route-optimizer.service.ts\<close>) and the quote service with the per-route split
  optimizer and the exact-output search (\<^verbatim>\<open>quote.service.ts\<close>).

  \<^item> A TypeScript \<^verbatim>\<open>bigint\<close> amount decoded from a \<^verbatim>\<open>uint256\<close> is a \<^typ>\<open>nat\<close>; a
    \<^verbatim>\<open>bigint\<close> computed from a signed weight is an \<^typ>\<open>int\<close>, divided with the
    truncating \<open>sdiv\<close>.
  \<^item> A TypeScript \<^verbatim>\<open>number\<close> that carries a fraction is a \<^typ>\<open>rat\<close>: the arithmetic
    is exact, so the rounding of IEEE doubles is outside the model. A decimal string
    made by \<^verbatim>\<open>formatUnits\<close> is represented by the rational it denotes.
  \<^item> A nullable or optional field is an \<open>option\<close>. An exception is the left summand
    of a sum, a \<^verbatim>\<open>try/catch\<close> is a case distinction on it.
  \<^item> A contract read (\<^verbatim>\<open>provider.readContract\<close>) is a function handed in as a
    parameter; it answers with a value or with an exception.
\<close>

datatype exn =
    ContractRevert
  | TypeError
  | InvalidPath
  | NoDexQuotes
  | NotFound

type_synonym 'a result = "exn + 'a"

subsection \<open>Numbers and strings of the host language\<close>

definition math_round :: "rat \<Rightarrow> int" where
  \<comment> \<open>\<^verbatim>\<open>Math.round\<close>: the nearest integer, a half rounds up.\<close>
  "math_round x = \<lfloor>x + 1 / 2\<rfloor>"

definition formatUnits :: "int \<Rightarrow> nat \<Rightarrow> rat" where
  \<comment> \<open>\<^verbatim>\<open>formatUnits(value, decimals)\<close>, as the number its decimal string denotes.\<close>
  "formatUnits v decimals = of_int v / 10 ^ decimals"

definition lower_char :: "char \<Rightarrow> char" where
  "lower_char c =
     (case map_of (zip ''ABCDEFGHIJKLMNOPQRSTUVWXYZ'' ''abcdefghijklmnopqrstuvwxyz'') c of
        None \<Rightarrow> c
      | Some l \<Rightarrow> l)"

definition toLowerCase :: "string \<Rightarrow> string" where
  \<comment> \<open>\<^verbatim>\<open>String.prototype.toLowerCase\<close> on the ASCII text of an address.\<close>
  "toLowerCase s = map lower_char s"

fun str_includes :: "string \<Rightarrow> string \<Rightarrow> bool" where
  \<comment> \<open>\<^verbatim>\<open>s.includes(sub)\<close>\<close>
  "str_includes [] sub = (sub = [])"
| "str_includes (c # cs) sub = (take (length sub) (c # cs) = sub \<or> str_includes cs sub)"

subsection \<open>Array.prototype.sort\<close>

text \<open>
  \<^verbatim>\<open>Array.prototype.sort(cmp)\<close> is modelled as the stable insertion sort that the
  comparator drives: an element goes in front of the first element of the sorted
  rest that it does not have to follow (\<open>cmp x y \<le> 0\<close>).
\<close>

fun js_insert :: "('a \<Rightarrow> 'a \<Rightarrow> int) \<Rightarrow> 'a \<Rightarrow> 'a list \<Rightarrow> 'a list" where
  "js_insert cmp x [] = [x]"
| "js_insert cmp x (y # ys) =
     (if cmp x y \<le> 0 then x # y # ys else y # js_insert cmp x ys)"

fun js_sort :: "('a \<Rightarrow> 'a \<Rightarrow> int) \<Rightarrow> 'a list \<Rightarrow> 'a list" where
  "js_sort cmp [] = []"
| "js_sort cmp (x # xs) = js_insert cmp x (js_sort cmp xs)"

section \<open>The liquidity graph\<close>

record Pool =
  pool_dexId :: string
  pool_poolAddress :: string
  pool_token0 :: string
  pool_token1 :: string
  pool_fee :: "int option"
  pool_liquidity :: "nat option"
  pool_sqrtPriceX96 :: "nat option"
  pool_tick :: "int option"

record GraphEdge =
  edge_pool :: Pool
  edge_tokenIn :: string
  edge_tokenOut :: string
  edge_dexId :: string
  edge_fee :: rat
  edge_liquidity :: nat
  edge_sqrtPriceX96 :: "nat option"
  edge_tick :: "int option"

record LiquidityGraph =
  adjacencyList :: "string \<rightharpoonup> GraphEdge list"
  graph_tokens :: "string set"
  poolCount :: nat

definition feeDecimal :: "Pool \<Rightarrow> rat" where
  \<comment> \<open>\<^verbatim>\<open>pool.fee ? pool.fee / 1_000_000 : 0.003\<close>: \<^verbatim>\<open>null\<close> and \<^verbatim>\<open>0\<close> are both falsy.\<close>
  "feeDecimal pool =
     (case pool_fee pool of
        None \<Rightarrow> 3 / 1000
      | Some f \<Rightarrow> if f = 0 then 3 / 1000 else of_int f / 1000000)"

definition push_edge :: "string \<Rightarrow> GraphEdge \<Rightarrow> (string \<rightharpoonup> GraphEdge list) \<Rightarrow> (string \<rightharpoonup> GraphEdge list)" where
  \<comment> \<open>\<^verbatim>\<open>if (!adj.has(t)) adj.set(t, []); adj.get(t).push(e)\<close>\<close>
  "push_edge t e adj = adj(t \<mapsto> (case adj t of None \<Rightarrow> [] | Some es \<Rightarrow> es) @ [e])"

definition addPool :: "LiquidityGraph \<Rightarrow> Pool \<Rightarrow> LiquidityGraph" where
  \<comment> \<open>The body of the loop over the pools in \<^verbatim>\<open>buildGraph\<close>.\<close>
  "addPool g pool =
     (let token0 = toLowerCase (pool_token0 pool);
          token1 = toLowerCase (pool_token1 pool);
          fee = feeDecimal pool;
          liquidity = (case pool_liquidity pool of None \<Rightarrow> 0 | Some l \<Rightarrow> l);
          sqrtPriceX96 = (case pool_sqrtPriceX96 pool of
                            None \<Rightarrow> None | Some s \<Rightarrow> if s = 0 then None else Some s);
          edge0to1 = \<lparr>edge_pool = pool, edge_tokenIn = token0, edge_tokenOut = token1,
                      edge_dexId = pool_dexId pool, edge_fee = fee, edge_liquidity = liquidity,
                      edge_sqrtPriceX96 = sqrtPriceX96, edge_tick = pool_tick pool\<rparr>;
          edge1to0 = \<lparr>edge_pool = pool, edge_tokenIn = token1, edge_tokenOut = token0,
                      edge_dexId = pool_dexId pool, edge_fee = fee, edge_liquidity = liquidity,
                      edge_sqrtPriceX96 = sqrtPriceX96, edge_tick = pool_tick pool\<rparr>
      in \<lparr>adjacencyList = push_edge token1 edge1to0 (push_edge token0 edge0to1 (adjacencyList g)),
          graph_tokens = insert token1 (insert token0 (graph_tokens g)),
          poolCount = poolCount g\<rparr>)"

definition buildGraph :: "Pool list \<Rightarrow> LiquidityGraph" where
  "buildGraph pools =
     (foldl addPool \<lparr>adjacencyList = Map.empty, graph_tokens = {}, poolCount = length pools\<rparr> pools)"

definition getEdgesFrom :: "LiquidityGraph \<Rightarrow> string \<Rightarrow> GraphEdge list" where
  "getEdgesFrom graph token =
     (case adjacencyList graph (toLowerCase token) of None \<Rightarrow> [] | Some es \<Rightarrow> es)"

definition hasToken :: "LiquidityGraph \<Rightarrow> string \<Rightarrow> bool" where
  "hasToken graph token = (toLowerCase token \<in> graph_tokens graph)"

definition graph_edges :: "LiquidityGraph \<Rightarrow> GraphEdge set" where
  \<comment> \<open>Every edge stored under some key of the adjacency list.\<close>
  "graph_edges g = {e. \<exists>t es. adjacencyList g t = Some es \<and> e \<in> set es}"

section \<open>The pathfinder\<close>

record RouteHop =
  hop_edge :: GraphEdge
  hop_tokenIn :: string
  hop_tokenOut :: string
  hop_poolAddress :: string
  hop_dexId :: string
  hop_fee :: rat

text \<open>
  The optional fields \<^verbatim>\<open>expectedOutput\<close> and \<^verbatim>\<open>priceImpact\<close> of a discovered route are
  never written by the code embedded here and are left out of the record.
\<close>

record DiscoveredRoute =
  hops :: "RouteHop list"
  route_tokenIn :: string
  route_tokenOut :: string
  path :: "string list"
  totalHops :: nat
  route_estimatedGas :: nat

definition MAX_HOPS :: nat where
  "MAX_HOPS = 3"

definition MAX_ROUTES :: nat where
  "MAX_ROUTES = 10"

definition hop_gas :: "nat \<Rightarrow> RouteHop \<Rightarrow> nat" where
  \<comment> \<open>\<^verbatim>\<open>GAS_ESTIMATES\<close>: the first hop pays the single rate, a later hop the multi rate.\<close>
  "hop_gas i hop =
     (let isV3 = str_includes (hop_dexId hop) ''v3'' in
      if i = 0 then (if isV3 then 150000 else 120000)
      else (if isV3 then 100000 else 80000))"

definition createRoute :: "RouteHop list \<Rightarrow> string list \<Rightarrow> DiscoveredRoute" where
  \<comment> \<open>\<^verbatim>\<open>hops[0]\<close> and \<^verbatim>\<open>hops[hops.length - 1]\<close> are read on the list the caller has just
      extended by a hop, which is never empty.\<close>
  "createRoute hs p =
     \<lparr>hops = hs,
      route_tokenIn = hop_tokenIn (hd hs),
      route_tokenOut = hop_tokenOut (last hs),
      path = p,
      totalHops = length hs,
      route_estimatedGas = foldl (\<lambda>g i. g + hop_gas i (hs ! i)) 0 [0..<length hs]\<rparr>"

definition make_hop :: "GraphEdge \<Rightarrow> RouteHop" where
  "make_hop edge =
     \<lparr>hop_edge = edge, hop_tokenIn = edge_tokenIn edge, hop_tokenOut = edge_tokenOut edge,
      hop_poolAddress = pool_poolAddress (edge_pool edge), hop_dexId = edge_dexId edge,
      hop_fee = edge_fee edge\<rparr>"

function findRoutesRecursive ::
  "LiquidityGraph \<Rightarrow> string \<Rightarrow> string \<Rightarrow> RouteHop list \<Rightarrow> string list \<Rightarrow> string set
     \<Rightarrow> DiscoveredRoute list \<Rightarrow> DiscoveredRoute list" where
  "findRoutesRecursive graph currentToken targetToken currentHops currentPath visitedInPath results =
     (if length currentHops \<ge> MAX_HOPS then results
      else
        foldl
          (\<lambda>res edge.
             let nextToken = toLowerCase (edge_tokenOut edge) in
             if nextToken \<in> visitedInPath \<and> nextToken \<noteq> targetToken then res
             else
               let newHops = currentHops @ [make_hop edge];
                   newPath = currentPath @ [nextToken]
               in if nextToken = targetToken then res @ [createRoute newHops newPath]
                  else findRoutesRecursive graph nextToken targetToken newHops newPath
                         (insert nextToken visitedInPath) res)
          results (getEdgesFrom graph currentToken))"
  by pat_completeness auto
termination
  by (relation "measure (\<lambda>(g, c, t, hs, p, v, r). MAX_HOPS - length hs)") auto

definition findRoutes :: "LiquidityGraph \<Rightarrow> string \<Rightarrow> string \<Rightarrow> DiscoveredRoute list" where
  \<comment> \<open>\<^verbatim>\<open>PathfinderService.findRoutes\<close> from the point where the fresh graph is at hand.\<close>
  "findRoutes graph tokenIn tokenOut =
     (let tokenInLower = toLowerCase tokenIn;
          tokenOutLower = toLowerCase tokenOut
      in if \<not> hasToken graph tokenInLower then []
         else if \<not> hasToken graph tokenOutLower then []
         else
           let routes = findRoutesRecursive graph tokenInLower tokenOutLower []
                          [tokenInLower] {} [];
               sorted = js_sort (\<lambda>a b. int (route_estimatedGas a) - int (route_estimatedGas b)) routes
           in take MAX_ROUTES sorted)"

section \<open>Venue tables and the contract reads\<close>

datatype dex_type = amm_v2 | amm_v3 | curve | balancer

definition DEX_INFO :: "string \<rightharpoonup> string \<times> dex_type" where
  "DEX_INFO = map_of
     [(''uniswap_v3'', (''Uniswap V3'', amm_v3)),
      (''pancakeswap_v3'', (''PancakeSwap V3'', amm_v3)),
      (''sushiswap_v3'', (''SushiSwap V3'', amm_v3)),
      (''quickswap_v3'', (''QuickSwap V3'', amm_v3)),
      (''uniswap_v2'', (''Uniswap V2'', amm_v2)),
      (''sushiswap'', (''SushiSwap'', amm_v2)),
      (''pancakeswap_v2'', (''PancakeSwap V2'', amm_v2)),
      (''quickswap'', (''QuickSwap'', amm_v2)),
      (''camelot'', (''Camelot'', amm_v2)),
      (''traderjoe'', (''Trader Joe'', amm_v2)),
      (''biswap'', (''Biswap'', amm_v2)),
      (''apeswap'', (''ApeSwap'', amm_v2)),
      (''spookyswap'', (''SpookySwap'', amm_v2)),
      (''pangolin'', (''Pangolin'', amm_v2)),
      (''curve'', (''Curve'', curve)),
      (''balancer'', (''Balancer'', balancer))]"

record Contracts =
  router :: string
  quoter :: "string option"
  factory :: "string option"

definition v3c :: "string \<Rightarrow> string \<Rightarrow> string \<Rightarrow> Contracts" where
  "v3c q r f = \<lparr>router = r, quoter = Some q, factory = Some f\<rparr>"

definition v2c :: "string \<Rightarrow> string \<Rightarrow> Contracts" where
  "v2c r f = \<lparr>router = r, quoter = None, factory = Some f\<rparr>"

definition DEX_CONTRACTS :: "nat \<rightharpoonup> (string \<times> Contracts) list" where
  \<comment> \<open>Per chain, the venues in the order of the table (the order of \<^verbatim>\<open>Object.entries\<close>).\<close>
  "DEX_CONTRACTS = map_of
     [(1,
       [(''uniswap_v3'', v3c ''0x61fFE014bA17989E743c5F6cB21bF9697530B21e''
           ''0xE592427A0AEce92De3Edee1F18E0157C05861564'' ''0x1F98431c8aD98523631AE4a59f267346ea31F984''),
        (''uniswap_v2'', v2c ''0x7a250d5630B4cF539739dF2C5dAcb4c659F2488D''
           ''0x5C69bEe701ef814a2B6a3EDD4B1652CB9cc5aA6f''),
        (''sushiswap'', v2c ''0xd9e1cE17f2641f24aE83637ab66a2cca9C378B9F''
           ''0xC0AEe478e3658e2610c5F7A4A2E1777cE9e4f2Ac''),
        (''sushiswap_v3'', v3c ''0x64e8802FE490fa7cc61d3463958199161Bb608A7''
           ''0x2E6cd2d30aa43f40aa81619ff4b6E0a41479B13F'' ''0xbACEB8eC6b9355Dfc0269C18bac9d6E2Bdc29C4F'')]),
      (42161,
       [(''uniswap_v3'', v3c ''0x61fFE014bA17989E743c5F6cB21bF9697530B21e''
           ''0xE592427A0AEce92De3Edee1F18E0157C05861564'' ''0x1F98431c8aD98523631AE4a59f267346ea31F984''),
        (''sushiswap'', v2c ''0x1b02dA8Cb0d097eB8D57A175b88c7D8b47997506''
           ''0xc35DADB65012eC5796536bD9864eD8773aBc74C4''),
        (''sushiswap_v3'', v3c ''0x0524E833cCD057e4d7A296e3aaAb9f7675964Ce1''
           ''0x8A21F6768C1f8075791D08546Dadf6daA0bE820c'' ''0x1af415a1EbA07a4986a52B6f2e7dE7003D82231e''),
        (''camelot'', v2c ''0xc873fEcbd354f5A56E00E710B90EF4201db2448d''
           ''0x6EcCab422D763aC031210895C81787E87B43A652''),
        (''traderjoe'', v2c ''0xbeE5c10Cf6E4F68f831E11C1D9E59B43560B3571''
           ''0x8e42f2F4101563bF679975178e880FD87d3eFd4e'')]),
      (137,
       [(''uniswap_v3'', v3c ''0x61fFE014bA17989E743c5F6cB21bF9697530B21e''
           ''0xE592427A0AEce92De3Edee1F18E0157C05861564'' ''0x1F98431c8aD98523631AE4a59f267346ea31F984''),
        (''quickswap'', v2c ''0xa5E0829CaCEd8fFDD4De3c43696c57F7D7A678ff''
           ''0x5757371414417b8C6CAad45bAeF941aBc7d3Ab32''),
        (''quickswap_v3'', v3c ''0xa15F0D7377B2A0C0c10db057f641beD21028FC89''
           ''0xf5b509bB0909a69B1c207E495f687a596C168E12'' ''0x411b0fAcC3489691f28ad58c47006AF5E3Ab3A28''),
        (''sushiswap'', v2c ''0x1b02dA8Cb0d097eB8D57A175b88c7D8b47997506''
           ''0xc35DADB65012eC5796536bD9864eD8773aBc74C4''),
        (''apeswap'', v2c ''0xC0788A3aD43d79aa53B09c2EaCc313A787d1d607''
           ''0xCf083Be4164828f00cAE704EC15a36D711491284'')]),
      (56,
       [(''pancakeswap_v3'', v3c ''0xB048Bbc1Ee6b733FFfCFb9e9CeF7375518e25997''
           ''0x1b81D678ffb9C0263b24A97847620C99d213eB14'' ''0x0BFbCF9fa4f9C56B0F40a671Ad40E0805A091865''),
        (''pancakeswap_v2'', v2c ''0x10ED43C718714eb63d5aA57B78B54704E256024E''
           ''0xcA143Ce32Fe78f1f7019d7d551a6402fC5350c73''),
        (''sushiswap'', v2c ''0x1b02dA8Cb0d097eB8D57A175b88c7D8b47997506''
           ''0xc35DADB65012eC5796536bD9864eD8773aBc74C4''),
        (''biswap'', v2c ''0x3a6d8cA21D1CF76F653A67577FA0D27453350dD8''
           ''0x858E3312ed3A876947EA49d572A7C42DE08af7EE''),
        (''apeswap'', v2c ''0xcF0feBd3f17CEf5b47b0cD257aCf6025c5BFf3b7''
           ''0x0841BD0B734E4F5853f0dD8d7Ea041c241fb0Da6'')]),
      (11155111,
       [(''uniswap_v3'', v3c ''0xEd1f6473345F45b75F8179591dd5bA1888cf2FB3''
           ''0x3bFA4769FB09eefC5a80d6E87c3B9C650f7Ae48E'' ''0x0227628f3F023bb0B980b67D528571c95c6DaC1c'')])]"

definition V3_FEE_TIERS :: "int list" where
  "V3_FEE_TIERS = [500, 3000, 10000]"

text \<open>
  The three contract functions the services read. Each takes the address of the
  contract first; an absent address (\<^verbatim>\<open>contracts.quoter!\<close> on a venue without a
  quoter) makes the read throw.
\<close>

record Provider =
  quoteExactInputSingle :: "string \<Rightarrow> string \<Rightarrow> string \<Rightarrow> nat \<Rightarrow> int \<Rightarrow> nat result"
  quoteExactInput :: "string \<Rightarrow> string \<Rightarrow> nat \<Rightarrow> nat result"
  getAmountsOut :: "string \<Rightarrow> nat \<Rightarrow> string list \<Rightarrow> nat list result"

definition read_quoteExactInputSingle ::
  "Provider \<Rightarrow> string option \<Rightarrow> string \<Rightarrow> string \<Rightarrow> nat \<Rightarrow> int \<Rightarrow> nat result" where
  "read_quoteExactInputSingle provider address tIn tOut amountIn fee =
     (case address of
        None \<Rightarrow> Inl TypeError
      | Some a \<Rightarrow> quoteExactInputSingle provider a tIn tOut amountIn fee)"

definition try_catch :: "'a result \<Rightarrow> (exn \<Rightarrow> 'a result) \<Rightarrow> 'a result" where
  "try_catch body handler = (case body of Inl e \<Rightarrow> handler e | Inr v \<Rightarrow> Inr v)"

section \<open>The route quoting service\<close>

record HopQuoteData =
  hq_poolAddress :: string
  hq_dexId :: string
  hq_tokenIn :: string
  hq_tokenOut :: string
  hq_amountIn :: nat
  hq_amountOut :: nat
  hq_fee :: "int option"

record RouteQuote =
  rq_route :: DiscoveredRoute
  rq_amountIn :: nat
  rq_amountOut :: nat
  rq_amountOutFormatted :: rat
  rq_priceImpact :: rat
  rq_estimatedGas :: nat
  hopsData :: "HopQuoteData list"

definition hop_pool_fee :: "RouteHop \<Rightarrow> int" where
  \<comment> \<open>\<^verbatim>\<open>hop.edge.pool.fee || 3000\<close>\<close>
  "hop_pool_fee hop =
     (case pool_fee (edge_pool (hop_edge hop)) of
        None \<Rightarrow> 3000
      | Some f \<Rightarrow> if f = 0 then 3000 else f)"

definition getV3HopQuote ::
  "Provider \<Rightarrow> string option \<Rightarrow> RouteHop \<Rightarrow> nat \<Rightarrow> HopQuoteData option result" where
  "getV3HopQuote provider quoterAddress hop amountIn =
     (let fee = hop_pool_fee hop in
      try_catch
        (case read_quoteExactInputSingle provider quoterAddress
                (hop_tokenIn hop) (hop_tokenOut hop) amountIn fee of
           Inl e \<Rightarrow> Inl e
         | Inr amountOut \<Rightarrow>
             Inr (Some \<lparr>hq_poolAddress = hop_poolAddress hop, hq_dexId = hop_dexId hop,
                        hq_tokenIn = hop_tokenIn hop, hq_tokenOut = hop_tokenOut hop,
                        hq_amountIn = amountIn, hq_amountOut = amountOut, hq_fee = Some fee\<rparr>))
        (\<lambda>e. Inr None))"

definition getV2HopQuote ::
  "Provider \<Rightarrow> string \<Rightarrow> RouteHop \<Rightarrow> nat \<Rightarrow> HopQuoteData option result" where
  \<comment> \<open>The router answers with one amount per token of the path; the last one is read.\<close>
  "getV2HopQuote provider routerAddress hop amountIn =
     try_catch
       (case getAmountsOut provider routerAddress amountIn [hop_tokenIn hop, hop_tokenOut hop] of
          Inl e \<Rightarrow> Inl e
        | Inr amounts \<Rightarrow>
            Inr (Some \<lparr>hq_poolAddress = hop_poolAddress hop, hq_dexId = hop_dexId hop,
                       hq_tokenIn = hop_tokenIn hop, hq_tokenOut = hop_tokenOut hop,
                       hq_amountIn = amountIn, hq_amountOut = last amounts, hq_fee = None\<rparr>))
       (\<lambda>e. Inr None)"

definition getHopQuote ::
  "nat \<Rightarrow> Provider \<Rightarrow> RouteHop \<Rightarrow> nat \<Rightarrow> HopQuoteData option result" where
  "getHopQuote chainId provider hop amountIn =
     (case DEX_INFO (hop_dexId hop) of
        None \<Rightarrow> Inr None
      | Some dexInfo \<Rightarrow>
          (case (case DEX_CONTRACTS chainId of
                   None \<Rightarrow> None
                 | Some table \<Rightarrow> map_of table (hop_dexId hop)) of
             None \<Rightarrow> Inr None
           | Some dexContracts \<Rightarrow>
               try_catch
                 (if snd dexInfo = amm_v3
                  then getV3HopQuote provider (quoter dexContracts) hop amountIn
                  else if snd dexInfo = amm_v2
                  then getV2HopQuote provider (router dexContracts) hop amountIn
                  else Inr None)
                 (\<lambda>e. Inr None)))"

definition estimatePriceImpact :: "nat \<Rightarrow> nat \<Rightarrow> rat" where
  "estimatePriceImpact hopCount amountIn =
     (let baseImpact = 3 / 10;
          amountFactor = of_nat amountIn / 10 ^ 18;
          amountImpact = min (amountFactor * (1 / 1000)) 1
      in baseImpact * of_nat hopCount + amountImpact)"

fun quoteHops ::
  "nat \<Rightarrow> Provider \<Rightarrow> RouteHop list \<Rightarrow> nat \<Rightarrow> HopQuoteData list
     \<Rightarrow> (HopQuoteData list \<times> nat) option result" where
  \<comment> \<open>The loop over \<^verbatim>\<open>route.hops\<close> in \<^verbatim>\<open>getQuoteForRoute\<close>, with its two variables.\<close>
  "quoteHops chainId provider [] currentAmount acc = Inr (Some (acc, currentAmount))"
| "quoteHops chainId provider (hop # rest) currentAmount acc =
     (case getHopQuote chainId provider hop currentAmount of
        Inl e \<Rightarrow> Inl e
      | Inr None \<Rightarrow> Inr None
      | Inr (Some hopQuote) \<Rightarrow>
          quoteHops chainId provider rest (hq_amountOut hopQuote) (acc @ [hopQuote]))"

definition getQuoteForRoute ::
  "nat \<Rightarrow> Provider \<Rightarrow> DiscoveredRoute \<Rightarrow> nat \<Rightarrow> nat \<Rightarrow> RouteQuote option result" where
  "getQuoteForRoute chainId provider route amountIn toDecimals =
     try_catch
       (case quoteHops chainId provider (hops route) amountIn [] of
          Inl e \<Rightarrow> Inl e
        | Inr None \<Rightarrow> Inr None
        | Inr (Some (hopQuotes, amountOut)) \<Rightarrow>
            Inr (Some \<lparr>rq_route = route, rq_amountIn = amountIn, rq_amountOut = amountOut,
                       rq_amountOutFormatted = formatUnits (int amountOut) toDecimals,
                       rq_priceImpact = estimatePriceImpact (totalHops route) amountIn,
                       rq_estimatedGas = route_estimatedGas route,
                       hopsData = hopQuotes\<rparr>))
       (\<lambda>e. Inr None)"

fun promise_all :: "'a result list \<Rightarrow> 'a list result" where
  \<comment> \<open>\<^verbatim>\<open>Promise.all\<close>: the values in order, or the first rejection.\<close>
  "promise_all [] = Inr []"
| "promise_all (r # rs) =
     (case r of
        Inl e \<Rightarrow> Inl e
      | Inr v \<Rightarrow> (case promise_all rs of Inl e \<Rightarrow> Inl e | Inr vs \<Rightarrow> Inr (v # vs)))"

definition not_null :: "'a option list \<Rightarrow> 'a list" where
  \<comment> \<open>\<^verbatim>\<open>.filter((q) => q !== null)\<close>\<close>
  "not_null xs = concat (map (\<lambda>x. case x of None \<Rightarrow> [] | Some v \<Rightarrow> [v]) xs)"

definition cmp_route_quotes :: "RouteQuote \<Rightarrow> RouteQuote \<Rightarrow> int" where
  \<comment> \<open>\<^verbatim>\<open>(a, b) => (b.amountOut > a.amountOut ? 1 : -1)\<close>\<close>
  "cmp_route_quotes a b = (if rq_amountOut b > rq_amountOut a then 1 else - 1)"

definition getQuotesForRoutes ::
  "nat \<Rightarrow> Provider \<Rightarrow> DiscoveredRoute list \<Rightarrow> nat \<Rightarrow> nat \<Rightarrow> RouteQuote list result" where
  "getQuotesForRoutes chainId provider routes amountIn toDecimals =
     (case promise_all
             (map (\<lambda>route. getQuoteForRoute chainId provider route amountIn toDecimals) routes) of
        Inl e \<Rightarrow> Inl e
      | Inr results \<Rightarrow> Inr (js_sort cmp_route_quotes (not_null results)))"

section \<open>The direct venue quoting service\<close>

record DexQuote =
  dq_dexId :: string
  dq_dexName :: string
  dq_amountOut :: nat
  dq_amountOutFormatted :: rat
  dq_estimatedGas :: nat
  dq_feeTier :: "int option"
  dq_feeTiers :: "int list option"
  dq_path :: "string list option"
  dq_pathEncoded :: "string option"
  dq_isMultiHop :: "bool option"
  dq_priceImpact :: rat

definition tryFeeTier ::
  "Provider \<Rightarrow> string option \<Rightarrow> string \<Rightarrow> string \<Rightarrow> nat \<Rightarrow> nat \<times> int \<Rightarrow> int \<Rightarrow> nat \<times> int" where
  \<comment> \<open>One round of the loop over the fee tiers: the pair is (bestAmountOut, bestFee).\<close>
  "tryFeeTier provider quoterAddress tokenIn tokenOut amountIn best fee =
     (case read_quoteExactInputSingle provider quoterAddress tokenIn tokenOut amountIn fee of
        Inl e \<Rightarrow> best
      | Inr amountOut \<Rightarrow> if amountOut > fst best then (amountOut, fee) else best)"

definition getV3SingleHopQuote ::
  "string \<Rightarrow> Provider \<Rightarrow> string option \<Rightarrow> string \<Rightarrow> string \<Rightarrow> nat \<Rightarrow> nat
     \<Rightarrow> DexQuote option result" where
  "getV3SingleHopQuote dexId provider quoterAddress tokenIn tokenOut amountIn toDecimals =
     try_catch
       (let best = foldl (tryFeeTier provider quoterAddress tokenIn tokenOut amountIn)
                     (0, V3_FEE_TIERS ! 1) V3_FEE_TIERS;
            bestAmountOut = fst best;
            bestFee = snd best
        in if bestAmountOut = 0 then Inr None
           else
             (case DEX_INFO dexId of
                None \<Rightarrow> Inl TypeError
              | Some dexInfo \<Rightarrow>
                  Inr (Some \<lparr>dq_dexId = dexId, dq_dexName = fst dexInfo,
                             dq_amountOut = bestAmountOut,
                             dq_amountOutFormatted = formatUnits (int bestAmountOut) toDecimals,
                             dq_estimatedGas = 150000, dq_feeTier = Some bestFee,
                             dq_feeTiers = None, dq_path = Some [tokenIn, tokenOut],
                             dq_pathEncoded = None, dq_isMultiHop = Some False,
                             dq_priceImpact = 1 / 2\<rparr>)))
       (\<lambda>e. Inr None)"

subsection \<open>The packed path of a multi-hop call\<close>

definition hex_digit :: "nat \<Rightarrow> char" where
  "hex_digit d = ''0123456789abcdef'' ! d"

function to_hex :: "nat \<Rightarrow> string" where
  "to_hex n = (if n < 16 then [hex_digit n] else to_hex (n div 16) @ [hex_digit (n mod 16)])"
  by pat_completeness auto
termination
  by (relation "measure id") auto

declare to_hex.simps [simp del]

definition toString16 :: "int \<Rightarrow> string" where
  \<comment> \<open>\<^verbatim>\<open>Number.prototype.toString(16)\<close> of an integer.\<close>
  "toString16 n = (if n < 0 then CHR ''-'' # to_hex (nat (- n)) else to_hex (nat n))"

definition padStart :: "nat \<Rightarrow> char \<Rightarrow> string \<Rightarrow> string" where
  \<comment> \<open>\<^verbatim>\<open>s.padStart(n, c)\<close>: a string of \<open>n\<close> characters or more is left as it is.\<close>
  "padStart n c s = replicate (n - length s) c @ s"

definition encodeV3Path :: "string list \<Rightarrow> int list \<Rightarrow> string result" where
  "encodeV3Path tokens fees =
     (if length tokens \<noteq> length fees + 1 then Inl InvalidPath
      else
        Inr (foldl
               (\<lambda>encoded i.
                  let feeHex = padStart 6 (CHR ''0'') (toString16 (fees ! i));
                      nextToken = drop 2 (toLowerCase (tokens ! (i + 1)))
                  in encoded @ feeHex @ nextToken)
               (toLowerCase (tokens ! 0)) [0..<length fees]))"

text \<open>
  The repository only encodes; the packed path is decoded by the on-chain quoter.
  The specification's decoder reads the string at fixed offsets: a token of 42
  characters (\<^verbatim>\<open>0x\<close> and 40 hex digits), then twice a fee of 6 hex digits and a
  token of 40 hex digits.
\<close>

definition hex_value :: "char \<Rightarrow> nat" where
  "hex_value c = (case map_of (zip ''0123456789abcdef'' [0..<16]) c of None \<Rightarrow> 0 | Some d \<Rightarrow> d)"

definition parse_hex :: "string \<Rightarrow> nat" where
  "parse_hex s = foldl (\<lambda>acc c. acc * 16 + hex_value c) 0 s"

definition spec_decodeV3Path :: "string \<Rightarrow> string list \<times> int list" where
  \<comment> \<open>Follows the specification's words (token, fee, token, fee, token).\<close>
  "spec_decodeV3Path s =
     ([take 42 s,
       ''0x'' @ take 40 (drop 48 s),
       ''0x'' @ take 40 (drop 94 s)],
      [int (parse_hex (take 6 (drop 42 s))),
       int (parse_hex (take 6 (drop 88 s)))])"

definition is_hex_char :: "char \<Rightarrow> bool" where
  "is_hex_char c = (c \<in> set ''0123456789abcdefABCDEF'')"

definition is_address :: "string \<Rightarrow> bool" where
  \<comment> \<open>A 20-byte address as the services carry it: \<^verbatim>\<open>0x\<close> and 40 hex digits.\<close>
  "is_address t = (length t = 42 \<and> take 2 t = ''0x'' \<and> list_all is_hex_char (drop 2 t))"

section \<open>The per-venue split optimizer\<close>

text \<open>
  The ABI encoding of the adapter data is kept symbolic: the single-hop form carries
  the fee tier, the multi-hop form the packed path.
\<close>

datatype DexData = SingleHopData int | MultiHopData string

record RouteStep =
  step_dexId :: string
  step_dexName :: string
  step_percentage :: rat
  step_fromToken :: string
  step_toToken :: string
  step_fromAmount :: rat
  step_toAmount :: rat
  step_estimatedGas :: nat
  step_feeTier :: "int option"
  step_feeTiers :: "int list option"
  step_isMultiHop :: "bool option"
  step_path :: "string list option"
  step_dexData :: "DexData option"

record OptimalRoute =
  steps :: "RouteStep list"
  totalOutput :: rat
  totalGas :: nat
  avgPriceImpact :: rat
  isSplit :: bool

definition MIN_SPLIT_PERCENTAGE :: rat where
  "MIN_SPLIT_PERCENTAGE = 1"

definition MAX_SPLITS :: nat where
  "MAX_SPLITS = 3"

definition splitThreshold :: rat where
  "splitThreshold = 1001 / 1000"

definition round2 :: "rat \<Rightarrow> rat" where
  \<comment> \<open>\<^verbatim>\<open>Math.round(x * 100) / 100\<close>\<close>
  "round2 x = of_int (math_round (x * 100)) / 100"

definition weight :: "rat \<Rightarrow> int" where
  \<comment> \<open>\<^verbatim>\<open>BigInt(Math.round(percentage * 100))\<close>, the share in hundredths of a percent.\<close>
  "weight percentage = math_round (percentage * 100)"

definition or_unknown :: "string option \<Rightarrow> string" where
  \<comment> \<open>\<^verbatim>\<open>token || 'UNKNOWN'\<close>\<close>
  "or_unknown t = (case t of None \<Rightarrow> ''UNKNOWN'' | Some s \<Rightarrow> if s = [] then ''UNKNOWN'' else s)"

definition cmp_dex_quotes :: "DexQuote \<Rightarrow> DexQuote \<Rightarrow> int" where
  \<comment> \<open>\<^verbatim>\<open>(a, b) => b.amountOut > a.amountOut ? 1 : b.amountOut < a.amountOut ? -1 : 0\<close>\<close>
  "cmp_dex_quotes a b =
     (if dq_amountOut b > dq_amountOut a then 1
      else if dq_amountOut b < dq_amountOut a then - 1 else 0)"

definition normalizePercentages :: "rat list \<Rightarrow> rat list" where
  "normalizePercentages raw = (let total = sum_list raw in map (\<lambda>p. p / total * 100) raw)"

text \<open>
  A division by a zero total happens only when every output is zero; the program
  then has \<^verbatim>\<open>NaN\<close> percentages, which fail the comparison with the minimum as the
  zero of HOL's division does, so every leg is dropped in both.
\<close>

definition calculateDynamicSplit :: "DexQuote list \<Rightarrow> int \<Rightarrow> nat \<Rightarrow> (DexQuote \<times> rat) list" where
  "calculateDynamicSplit quotes amountIn fromDecimals =
     (let topQuotes = take MAX_SPLITS quotes;
          outputs = map (\<lambda>q. of_nat (dq_amountOut q)) topQuotes;
          totalPotentialOutput = sum_list outputs;
          rawPercentages = map (\<lambda>output. output / totalPotentialOutput * 100) outputs;
          percentages = normalizePercentages rawPercentages;
          validSplits = filter (\<lambda>(q, p). p \<ge> MIN_SPLIT_PERCENTAGE) (zip topQuotes percentages)
      in if length validSplits = 1 then map (\<lambda>(q, p). (q, 100)) validSplits
         else
           let totalPercentage = sum_list (map snd validSplits);
               renormalized = map (\<lambda>(q, p). (q, p / totalPercentage * 100)) validSplits;
               rounded = map (\<lambda>(q, p). (q, round2 p)) renormalized;
               sum = sum_list (map snd rounded)
           in if sum \<noteq> 100 \<and> length rounded > 0
              then (case rounded of
                      [] \<Rightarrow> []
                    | (q, p) # rest \<Rightarrow> (q, round2 (p + (100 - sum))) # rest)
              else rounded)"

definition single_dexData :: "DexQuote \<Rightarrow> DexData option" where
  "single_dexData quote =
     (case (dq_isMultiHop quote, dq_pathEncoded quote) of
        (Some True, Some (c # cs)) \<Rightarrow> Some (MultiHopData (c # cs))
      | _ \<Rightarrow> (case dq_feeTier quote of
                None \<Rightarrow> None
              | Some f \<Rightarrow> if f = 0 then None else Some (SingleHopData f)))"

definition createSingleRoute ::
  "DexQuote \<Rightarrow> int \<Rightarrow> nat \<Rightarrow> nat \<Rightarrow> string option \<Rightarrow> string option \<Rightarrow> OptimalRoute" where
  "createSingleRoute quote amountIn fromDecimals toDecimals fromToken toToken =
     \<lparr>steps =
        [\<lparr>step_dexId = dq_dexId quote, step_dexName = dq_dexName quote, step_percentage = 100,
          step_fromToken = or_unknown fromToken, step_toToken = or_unknown toToken,
          step_fromAmount = formatUnits amountIn fromDecimals,
          step_toAmount = formatUnits (int (dq_amountOut quote)) toDecimals,
          step_estimatedGas = dq_estimatedGas quote, step_feeTier = dq_feeTier quote,
          step_feeTiers = dq_feeTiers quote, step_isMultiHop = dq_isMultiHop quote,
          step_path = dq_path quote, step_dexData = single_dexData quote\<rparr>],
      totalOutput = formatUnits (int (dq_amountOut quote)) toDecimals,
      totalGas = dq_estimatedGas quote,
      avgPriceImpact = dq_priceImpact quote,
      isSplit = False\<rparr>"

definition splitAmountOut :: "DexQuote \<times> rat \<Rightarrow> int" where
  \<comment> \<open>\<^verbatim>\<open>(quote.amountOut * BigInt(Math.round(percentage * 100))) / 10000n\<close>\<close>
  "splitAmountOut leg = (int (dq_amountOut (fst leg)) * weight (snd leg)) sdiv 10000"

definition split_step ::
  "int \<Rightarrow> nat \<Rightarrow> nat \<Rightarrow> string option \<Rightarrow> string option \<Rightarrow> DexQuote \<times> rat \<Rightarrow> RouteStep" where
  "split_step amountIn fromDecimals toDecimals fromToken toToken leg =
     (let quote = fst leg; percentage = snd leg;
          splitAmountIn = (amountIn * weight percentage) sdiv 10000
      in \<lparr>step_dexId = dq_dexId quote, step_dexName = dq_dexName quote,
          step_percentage = percentage,
          step_fromToken = or_unknown fromToken, step_toToken = or_unknown toToken,
          step_fromAmount = formatUnits splitAmountIn fromDecimals,
          step_toAmount = formatUnits (splitAmountOut leg) toDecimals,
          step_estimatedGas = dq_estimatedGas quote, step_feeTier = dq_feeTier quote,
          step_feeTiers = None, step_isMultiHop = None, step_path = None,
          step_dexData = (case dq_feeTier quote of
                            None \<Rightarrow> None
                          | Some f \<Rightarrow> if f = 0 then None else Some (SingleHopData f))\<rparr>)"

definition createSplitRoute ::
  "(DexQuote \<times> rat) list \<Rightarrow> int \<Rightarrow> nat \<Rightarrow> nat \<Rightarrow> string option \<Rightarrow> string option
     \<Rightarrow> OptimalRoute" where
  "createSplitRoute splits amountIn fromDecimals toDecimals fromToken toToken =
     \<lparr>steps = map (split_step amountIn fromDecimals toDecimals fromToken toToken) splits,
      totalOutput = formatUnits (sum_list (map splitAmountOut splits)) toDecimals,
      totalGas = sum_list (map (\<lambda>leg. dq_estimatedGas (fst leg)) splits),
      avgPriceImpact = sum_list (map (\<lambda>leg. dq_priceImpact (fst leg) * (snd leg / 100)) splits),
      isSplit = True\<rparr>"

definition findOptimalRoute ::
  "DexQuote list \<Rightarrow> int \<Rightarrow> nat \<Rightarrow> nat \<Rightarrow> string option \<Rightarrow> string option
     \<Rightarrow> OptimalRoute result" where
  "findOptimalRoute quotes amountIn fromDecimals toDecimals fromToken toToken =
     (if length quotes = 0 then Inl NoDexQuotes
      else
        let sortedQuotes = js_sort cmp_dex_quotes quotes;
            amountInNum = formatUnits amountIn fromDecimals
        in (case sortedQuotes of
              [] \<Rightarrow> Inl TypeError
            | best # others \<Rightarrow>
                if length sortedQuotes = 1 \<or> amountInNum < 100
                then Inr (createSingleRoute best amountIn fromDecimals toDecimals fromToken toToken)
                else
                  let dynamicSplit = calculateDynamicSplit sortedQuotes amountIn fromDecimals;
                      singleRoute = createSingleRoute best amountIn fromDecimals toDecimals
                                      fromToken toToken;
                      splitRoute = createSplitRoute dynamicSplit amountIn fromDecimals toDecimals
                                     fromToken toToken;
                      singleOutput = totalOutput singleRoute;
                      splitOutput = totalOutput splitRoute
                  in if splitOutput > singleOutput * splitThreshold then Inr splitRoute
                     else Inr singleRoute))"

section \<open>The per-route split optimizer of the quote service\<close>

record SplitResult =
  sr_routes :: "(RouteQuote \<times> rat) list"
  sr_totalOutput :: rat
  sr_totalGas :: int
  sr_avgPriceImpact :: rat
  sr_isSplit :: bool

definition MAX_ROUTE_SPLITS :: nat where
  "MAX_ROUTE_SPLITS = 3"

definition MIN_ROUTE_PERCENTAGE :: rat where
  "MIN_ROUTE_PERCENTAGE = 5"

definition cmp_route_outputs :: "RouteQuote \<Rightarrow> RouteQuote \<Rightarrow> int" where
  "cmp_route_outputs a b =
     (if rq_amountOut b > rq_amountOut a then 1
      else if rq_amountOut b < rq_amountOut a then - 1 else 0)"

definition singleResult :: "RouteQuote \<Rightarrow> SplitResult" where
  "singleResult best =
     \<lparr>sr_routes = [(best, 100)],
      sr_totalOutput = rq_amountOutFormatted best,
      sr_totalGas = int (rq_estimatedGas best),
      sr_avgPriceImpact = rq_priceImpact best,
      sr_isSplit = False\<rparr>"

definition routeValidSplits :: "RouteQuote list \<Rightarrow> (RouteQuote \<times> rat) list" where
  \<comment> \<open>The top routes, their share of the summed outputs, and the filter by the minimum.\<close>
  "routeValidSplits sortedQuotes =
     (let topQuotes = take MAX_ROUTE_SPLITS sortedQuotes;
          outputs = map (\<lambda>q. of_nat (rq_amountOut q)) topQuotes;
          totalPotentialOutput = sum_list outputs;
          percentages = map (\<lambda>output. output / totalPotentialOutput * 100) outputs
      in filter (\<lambda>(q, p). p \<ge> MIN_ROUTE_PERCENTAGE) (zip topQuotes percentages))"

definition routeNormalize :: "(RouteQuote \<times> rat) list \<Rightarrow> (RouteQuote \<times> rat) list" where
  \<comment> \<open>The normalisation to two decimals and the adjustment of the first leg.\<close>
  "routeNormalize validSplits =
     (let totalPercentage = sum_list (map snd validSplits);
          normalized = map (\<lambda>(q, p). (q, of_int (math_round (p / totalPercentage * 10000)) / 100))
                         validSplits;
          sum = sum_list (map snd normalized)
      in if sum \<noteq> 100 \<and> length normalized > 0
         then (case normalized of
                 [] \<Rightarrow> []
               | (q, p) # rest \<Rightarrow> (q, p + of_int (math_round ((100 - sum) * 100)) / 100) # rest)
         else normalized)"

definition routeSplitAmountOut :: "RouteQuote \<times> rat \<Rightarrow> int" where
  \<comment> \<open>\<^verbatim>\<open>(quote.amountOut * BigInt(Math.round(proportion * 10000))) / 10000n\<close>\<close>
  "routeSplitAmountOut leg =
     (int (rq_amountOut (fst leg)) * math_round (snd leg / 100 * 10000)) sdiv 10000"

definition optimizeRouteSplit ::
  "RouteQuote list \<Rightarrow> int \<Rightarrow> nat \<Rightarrow> nat \<Rightarrow> SplitResult option result" where
  "optimizeRouteSplit quotes amountIn fromDecimals toDecimals =
     (if length quotes = 0 then Inr None
      else
        let sortedQuotes = js_sort cmp_route_outputs quotes;
            amountInNum = formatUnits amountIn fromDecimals
        in (case sortedQuotes of
              [] \<Rightarrow> Inl TypeError
            | best # others \<Rightarrow>
                if length sortedQuotes = 1 \<or> amountInNum < 100 then Inr (Some (singleResult best))
                else
                  let validSplits = routeValidSplits sortedQuotes
                  in if length validSplits \<le> 1 then Inr (Some (singleResult best))
                     else
                       let legs = routeNormalize validSplits;
                           totalSplitOutput = sum_list (map routeSplitAmountOut legs);
                           totalSplitGas =
                             sum_list (map (\<lambda>(q, p). \<lfloor>of_nat (rq_estimatedGas q) * (p / 100)\<rfloor>) legs);
                           weightedPriceImpact =
                             sum_list (map (\<lambda>(q, p). rq_priceImpact q * (p / 100)) legs);
                           totalSplitOutputFormatted = formatUnits totalSplitOutput toDecimals;
                           singleOutput = rq_amountOutFormatted best;
                           splitOutput = totalSplitOutputFormatted
                       in if splitOutput > singleOutput * splitThreshold
                          then Inr (Some \<lparr>sr_routes = legs,
                                           sr_totalOutput = totalSplitOutputFormatted,
                                           sr_totalGas = totalSplitGas,
                                           sr_avgPriceImpact = weightedPriceImpact,
                                           sr_isSplit = True\<rparr>)
                          else Inr (Some (singleResult best))))"

section \<open>The exact-output search of the quote service\<close>

text \<open>
  \<^verbatim>\<open>getExactOutputQuote\<close> reads the venues through \<^verbatim>\<open>fetchAllQuotes\<close>, here the
  parameter \<open>fetch\<close>: its first argument numbers the call (0 for the sample, \<open>i + 1\<close>
  for round \<open>i\<close> of the search), since two reads of the chain need not agree. The
  search is embedded up to the best quote it keeps; the fee calculation and the
  formatting of the response that follow are outside the embedding. Beside the best
  quote the model returns a log of the rounds: the midpoint and, where the round
  produced a route, its output.
\<close>

record BestQuote =
  bq_input :: rat
  bq_output :: rat
  bq_route :: OptimalRoute

definition toFixedUnits :: "rat \<Rightarrow> nat \<Rightarrow> int" where
  \<comment> \<open>\<^verbatim>\<open>parseUnits(mid.toFixed(decimals), decimals)\<close>: the nearest multiple of the unit.\<close>
  "toFixedUnits x decimals =
     (if x \<ge> 0 then \<lfloor>x * 10 ^ decimals + 1 / 2\<rfloor> else - \<lfloor>- x * 10 ^ decimals + 1 / 2\<rfloor>)"

definition sampleAmount :: "nat \<Rightarrow> int" where
  \<comment> \<open>\<^verbatim>\<open>parseUnits('0.01', fromDecimals)\<close>\<close>
  "sampleAmount fromDecimals = math_round (10 ^ fromDecimals / 100)"

definition bestSample :: "DexQuote \<Rightarrow> DexQuote list \<Rightarrow> DexQuote" where
  \<comment> \<open>\<^verbatim>\<open>reduce((best, q) => q.amountOut > best.amountOut ? q : best)\<close> from the first quote.\<close>
  "bestSample q0 rest = foldl (\<lambda>best q. if dq_amountOut q > dq_amountOut best then q else best) q0 rest"

definition estimateInput ::
  "(nat \<Rightarrow> int \<Rightarrow> DexQuote list result) \<Rightarrow> rat \<Rightarrow> nat \<Rightarrow> nat \<Rightarrow> rat" where
  \<comment> \<open>A zero \<open>sampleIn\<close> makes the rate infinite (the estimate is then 0) or \<^verbatim>\<open>NaN\<close>.\<close>
  "estimateInput fetch targetOutput fromDecimals toDecimals =
     (case fetch 0 (sampleAmount fromDecimals) of
        Inl e \<Rightarrow> targetOutput
      | Inr [] \<Rightarrow> targetOutput
      | Inr (q0 # rest) \<Rightarrow>
          let sampleIn = formatUnits (sampleAmount fromDecimals) fromDecimals;
              sampleOut = formatUnits (int (dq_amountOut (bestSample q0 rest))) toDecimals
          in if sampleIn = 0 then (if sampleOut > 0 then 0 else targetOutput)
             else
               let sampleRate = sampleOut / sampleIn
               in if sampleRate > 0 then targetOutput / sampleRate else targetOutput)"

definition closeEnough :: "rat \<Rightarrow> rat \<Rightarrow> bool" where
  \<comment> \<open>\<^verbatim>\<open>Math.abs(output - targetOutput) / targetOutput < 0.001\<close>; a zero target gives
      an infinite or undefined quotient, which is not below the bound.\<close>
  "closeEnough output targetOutput =
     (targetOutput \<noteq> 0 \<and> \<bar>output - targetOutput\<bar> / targetOutput < 1 / 1000)"

definition betterThan :: "rat \<Rightarrow> rat \<Rightarrow> BestQuote option \<Rightarrow> bool" where
  \<comment> \<open>\<^verbatim>\<open>!bestQuote || Math.abs(output - target) < Math.abs(bestQuote.output - target)\<close>\<close>
  "betterThan output targetOutput best =
     (case best of
        None \<Rightarrow> True
      | Some b \<Rightarrow> \<bar>output - targetOutput\<bar> < \<bar>bq_output b - targetOutput\<bar>)"

function searchLoop ::
  "(nat \<Rightarrow> int \<Rightarrow> DexQuote list result) \<Rightarrow> rat \<Rightarrow> rat \<Rightarrow> nat \<Rightarrow> nat
     \<Rightarrow> string option \<Rightarrow> string option
     \<Rightarrow> nat \<Rightarrow> rat \<Rightarrow> rat \<Rightarrow> BestQuote option \<Rightarrow> (rat \<times> rat option) list
     \<Rightarrow> BestQuote option \<times> (rat \<times> rat option) list" where
  "searchLoop fetch targetOutput estimatedInput fromDecimals toDecimals fromSymbol toSymbol
      i low high best rounds =
     (if i < 5 then
        let mid = (low + high) / 2;
            amountIn = toFixedUnits mid fromDecimals
        in (case (case fetch (i + 1) amountIn of
                    Inl e \<Rightarrow> Inl e
                  | Inr dexQuotes \<Rightarrow>
                      if length dexQuotes = 0 then Inr None
                      else (case findOptimalRoute dexQuotes amountIn fromDecimals toDecimals
                                   fromSymbol toSymbol of
                              Inl e \<Rightarrow> Inl e
                            | Inr route \<Rightarrow> Inr (Some route))) of
              Inl e \<Rightarrow>
                if mid < estimatedInput
                then searchLoop fetch targetOutput estimatedInput fromDecimals toDecimals
                       fromSymbol toSymbol (i + 1) mid high best (rounds @ [(mid, None)])
                else searchLoop fetch targetOutput estimatedInput fromDecimals toDecimals
                       fromSymbol toSymbol (i + 1) low mid best (rounds @ [(mid, None)])
            | Inr None \<Rightarrow>
                searchLoop fetch targetOutput estimatedInput fromDecimals toDecimals
                  fromSymbol toSymbol (i + 1) low high best (rounds @ [(mid, None)])
            | Inr (Some route) \<Rightarrow>
                let output = totalOutput route;
                    best' = (if betterThan output targetOutput best
                             then Some \<lparr>bq_input = mid, bq_output = output, bq_route = route\<rparr>
                             else best);
                    low' = (if output < targetOutput then mid else low);
                    high' = (if output < targetOutput then high else mid);
                    rounds' = rounds @ [(mid, Some output)]
                in if closeEnough output targetOutput then (best', rounds')
                   else searchLoop fetch targetOutput estimatedInput fromDecimals toDecimals
                          fromSymbol toSymbol (i + 1) low' high' best' rounds')
      else (best, rounds))"
  by pat_completeness auto
termination
  by (relation "measure (\<lambda>(f, t, e, fd, td, fs, ts, i, lo, hi, b, l). 5 - i)") auto

declare searchLoop.simps [simp del]

definition exactOutputSearch ::
  "(nat \<Rightarrow> int \<Rightarrow> DexQuote list result) \<Rightarrow> rat \<Rightarrow> nat \<Rightarrow> nat \<Rightarrow> string option \<Rightarrow> string option
     \<Rightarrow> BestQuote option \<times> (rat \<times> rat option) list" where
  "exactOutputSearch fetch targetOutput fromDecimals toDecimals fromSymbol toSymbol =
     (let estimatedInput = estimateInput fetch targetOutput fromDecimals toDecimals;
          low = estimatedInput * (1 / 2);
          high = estimatedInput * 2
      in searchLoop fetch targetOutput estimatedInput fromDecimals toDecimals fromSymbol toSymbol
           0 low high None [])"

definition getExactOutputQuote ::
  "(nat \<Rightarrow> int \<Rightarrow> DexQuote list result) \<Rightarrow> rat \<Rightarrow> nat \<Rightarrow> nat \<Rightarrow> string option \<Rightarrow> string option
     \<Rightarrow> BestQuote result" where
  "getExactOutputQuote fetch targetOutput fromDecimals toDecimals fromSymbol toSymbol =
     (case fst (exactOutputSearch fetch targetOutput fromDecimals toDecimals fromSymbol toSymbol) of
        None \<Rightarrow> Inl NotFound
      | Some bestQuote \<Rightarrow> Inr bestQuote)"

section \<open>Concrete inputs\<close>

text \<open>Small snapshots, routes and venues on which the properties below are evaluated.\<close>

definition pool_of :: "string \<Rightarrow> string \<Rightarrow> string \<Rightarrow> int option \<Rightarrow> Pool" where
  "pool_of dex a b f =
     \<lparr>pool_dexId = dex, pool_poolAddress = ''0xpool'', pool_token0 = a, pool_token1 = b,
      pool_fee = f, pool_liquidity = None, pool_sqrtPriceX96 = None, pool_tick = None\<rparr>"

definition zero_fee_edge :: GraphEdge where
  \<comment> \<open>The edge from \<open>0xa\<close> to \<open>0xb\<close> of a pool whose stored fee is 0.\<close>
  "zero_fee_edge =
     \<lparr>edge_pool = pool_of ''uniswap_v3'' ''0xa'' ''0xb'' (Some 0),
      edge_tokenIn = ''0xa'', edge_tokenOut = ''0xb'', edge_dexId = ''uniswap_v3'',
      edge_fee = 3 / 1000, edge_liquidity = 0, edge_sqrtPriceX96 = None, edge_tick = None\<rparr>"

definition triangle_pools :: "Pool list" where
  \<comment> \<open>Two pools: \<open>0xa\<close>/\<open>0xb\<close> and \<open>0xa\<close>/\<open>0xc\<close>.\<close>
  "triangle_pools =
     [pool_of ''uniswap_v3'' ''0xa'' ''0xb'' (Some 3000),
      pool_of ''uniswap_v3'' ''0xa'' ''0xc'' (Some 3000)]"

definition weth :: string where
  "weth = ''0xC02aaA39b223FE8D0A0e5C4F27eAD9083C756Cc2''"

definition usdc :: string where
  "usdc = ''0xA0b86991c6218b36c1d19D4a2e9Eb0cE3606eB48''"

definition dai :: string where
  "dai = ''0x6B175474E89094C44Da98b954EedeAC495271d0F''"

definition flat_provider :: Provider where
  \<comment> \<open>Every fee tier of every pair answers with 100.\<close>
  "flat_provider =
     \<lparr>quoteExactInputSingle = (\<lambda>a tIn tOut amountIn fee. Inr 100),
      quoteExactInput = (\<lambda>a p amountIn. Inl ContractRevert),
      getAmountsOut = (\<lambda>a amountIn p. Inl ContractRevert)\<rparr>"

definition low_tier_provider :: Provider where
  \<comment> \<open>Only the fee tier 500 has a pool; the other tiers revert.\<close>
  "low_tier_provider =
     \<lparr>quoteExactInputSingle =
        (\<lambda>a tIn tOut amountIn fee. if fee = 500 then Inr 100 else Inl ContractRevert),
      quoteExactInput = (\<lambda>a p amountIn. Inl ContractRevert),
      getAmountsOut = (\<lambda>a amountIn p. Inl ContractRevert)\<rparr>"

definition hop_of :: "Pool \<Rightarrow> RouteHop" where
  \<comment> \<open>The hop along the edge from \<open>token0\<close> to \<open>token1\<close> of a pool.\<close>
  "hop_of pool =
     make_hop \<lparr>edge_pool = pool, edge_tokenIn = toLowerCase (pool_token0 pool),
               edge_tokenOut = toLowerCase (pool_token1 pool), edge_dexId = pool_dexId pool,
               edge_fee = feeDecimal pool, edge_liquidity = 0, edge_sqrtPriceX96 = None,
               edge_tick = pool_tick pool\<rparr>"



definition demo_provider :: Provider where
  \<comment> \<open>\<open>0xa\<close> to \<open>0xb\<close> doubles, \<open>0xb\<close> to \<open>0xc\<close> adds 5, \<open>0xa\<close> to \<open>0xc\<close> triples at the
      fee tier 500 only; every other read reverts.\<close>
  "demo_provider =
     \<lparr>quoteExactInputSingle =
        (\<lambda>a tIn tOut amountIn fee.
           if tIn = ''0xa'' \<and> tOut = ''0xb'' then Inr (2 * amountIn)
           else if tIn = ''0xb'' \<and> tOut = ''0xc'' then Inr (amountIn + 5)
           else if tIn = ''0xa'' \<and> tOut = ''0xc'' \<and> fee = 500 then Inr (3 * amountIn)
           else Inl ContractRevert),
      quoteExactInput = (\<lambda>a p amountIn. Inl ContractRevert),
      getAmountsOut = (\<lambda>a amountIn p. Inl ContractRevert)\<rparr>"

definition route_ab_bc :: DiscoveredRoute where
  "route_ab_bc =
     createRoute [hop_of (pool_of ''uniswap_v3'' ''0xa'' ''0xb'' (Some 3000)),
                  hop_of (pool_of ''uniswap_v3'' ''0xb'' ''0xc'' (Some 3000))]
       [''0xa'', ''0xb'', ''0xc'']"

definition route_ac_3000 :: DiscoveredRoute where
  "route_ac_3000 =
     createRoute [hop_of (pool_of ''uniswap_v3'' ''0xa'' ''0xc'' (Some 3000))] [''0xa'', ''0xc'']"

definition route_ac_500 :: DiscoveredRoute where
  "route_ac_500 =
     createRoute [hop_of (pool_of ''uniswap_v3'' ''0xa'' ''0xc'' (Some 500))] [''0xa'', ''0xc'']"

definition quote_ac_500 :: RouteQuote where
  "quote_ac_500 =
     \<lparr>rq_route = route_ac_500, rq_amountIn = 1000, rq_amountOut = 3000,
      rq_amountOutFormatted = 3000, rq_priceImpact = 3 / 10 + 1 / 1000000000000000000,
      rq_estimatedGas = 150000,
      hopsData = [\<lparr>hq_poolAddress = ''0xpool'', hq_dexId = ''uniswap_v3'', hq_tokenIn = ''0xa'',
                   hq_tokenOut = ''0xc'', hq_amountIn = 1000, hq_amountOut = 3000,
                   hq_fee = Some 500\<rparr>]\<rparr>"

definition quote_ab_bc :: RouteQuote where
  "quote_ab_bc =
     \<lparr>rq_route = route_ab_bc, rq_amountIn = 1000, rq_amountOut = 2005,
      rq_amountOutFormatted = 2005, rq_priceImpact = 6 / 10 + 1 / 1000000000000000000,
      rq_estimatedGas = 250000,
      hopsData = [\<lparr>hq_poolAddress = ''0xpool'', hq_dexId = ''uniswap_v3'', hq_tokenIn = ''0xa'',
                   hq_tokenOut = ''0xb'', hq_amountIn = 1000, hq_amountOut = 2000,
                   hq_fee = Some 3000\<rparr>,
                  \<lparr>hq_poolAddress = ''0xpool'', hq_dexId = ''uniswap_v3'', hq_tokenIn = ''0xb'',
                   hq_tokenOut = ''0xc'', hq_amountIn = 2000, hq_amountOut = 2005,
                   hq_fee = Some 3000\<rparr>]\<rparr>"

definition adjusted :: "rat list \<Rightarrow> rat list" where
  \<comment> \<open>The final percentages of the legs whose shares are \<open>ps\<close>: shares of their sum in
      percent, rounded to two decimals, with the residual added to the first.\<close>
  "adjusted ps =
     (let rs = map (\<lambda>p. round2 (p / sum_list ps * 100)) ps;
          s = sum_list rs
      in if s \<noteq> 100 \<and> rs \<noteq> [] then (hd rs + (100 - s)) # tl rs else rs)"

definition share :: "('q \<Rightarrow> nat) \<Rightarrow> 'q list \<Rightarrow> 'q \<Rightarrow> rat" where
  \<comment> \<open>The output of a quote as a percentage of the summed outputs of the topQuotes quotes.\<close>
  "share out topQuotes q = of_nat (out q) / sum_list (map (\<lambda>q. of_nat (out q)) topQuotes) * 100"

definition split_legs :: "('q \<Rightarrow> nat) \<Rightarrow> rat \<Rightarrow> 'q list \<Rightarrow> ('q \<times> rat) list" where
  \<comment> \<open>The split selection in the specification's words: of the three best quotes, those
      whose share reaches the minimum, with the adjusted percentages of their shares.\<close>
  "split_legs out minimum sortedQuotes =
     (let topQuotes = take 3 sortedQuotes;
          kept = filter (\<lambda>q. minimum \<le> share out topQuotes q) topQuotes
      in zip kept (adjusted (map (share out topQuotes) kept)))"

definition venue_quote :: "string \<Rightarrow> nat \<Rightarrow> DexQuote" where
  \<comment> \<open>A single-hop quote of a constant-product venue with the given output.\<close>
  "venue_quote dex out =
     \<lparr>dq_dexId = dex, dq_dexName = dex, dq_amountOut = out,
      dq_amountOutFormatted = of_nat out, dq_estimatedGas = 120000, dq_feeTier = None,
      dq_feeTiers = None, dq_path = None, dq_pathEncoded = None, dq_isMultiHop = Some False,
      dq_priceImpact = 3 / 10\<rparr>"

definition route_quote_of :: "DiscoveredRoute \<Rightarrow> nat \<Rightarrow> RouteQuote" where
  \<comment> \<open>A quote of a route with the given output, formatted with 0 decimals.\<close>
  "route_quote_of route out =
     \<lparr>rq_route = route, rq_amountIn = 1000, rq_amountOut = out,
      rq_amountOutFormatted = of_nat out, rq_priceImpact = 3 / 10,
      rq_estimatedGas = route_estimatedGas route, hopsData = []\<rparr>"




section \<open>Properties of the liquidity graph\<close>

lemma graph_edges_addPool:
  "e \<in> graph_edges (addPool g pool) \<Longrightarrow>
     e \<in> graph_edges g \<or> (edge_pool e = pool \<and> edge_fee e = feeDecimal pool)"
  by (auto simp: graph_edges_def addPool_def push_edge_def Let_def
           split: if_splits option.splits)

lemma graph_edges_foldl:
  "e \<in> graph_edges (foldl addPool g pools) \<Longrightarrow>
     e \<in> graph_edges g \<or> (edge_pool e \<in> set pools \<and> edge_fee e = feeDecimal (edge_pool e))"
proof (induction pools arbitrary: g)
  case Nil
  then show ?case by simp
next
  case (Cons p ps)
  from Cons.IH [of "addPool g p"] Cons.prems
  have "e \<in> graph_edges (addPool g p) \<or>
        (edge_pool e \<in> set ps \<and> edge_fee e = feeDecimal (edge_pool e))"
    by simp
  then show ?case
    using graph_edges_addPool [of e g p] by auto
qed

lemma graph_edges_buildGraph:
  assumes "e \<in> graph_edges (buildGraph pools)"
  shows "edge_pool e \<in> set pools \<and> edge_fee e = feeDecimal (edge_pool e)"
proof -
  have "e \<notin> graph_edges \<lparr>adjacencyList = Map.empty, graph_tokens = {}, poolCount = length pools\<rparr>"
    by (simp add: graph_edges_def)
  with assms graph_edges_foldl show ?thesis
    unfolding buildGraph_def by blast
qed

lemma lower_tokens:
  "toLowerCase ''0xa'' = ''0xa''" "toLowerCase ''0xb'' = ''0xb''" "toLowerCase ''0xc'' = ''0xc''"
  by (simp_all add: toLowerCase_def lower_char_def)

subsection \<open>The fee of an edge\<close>

text \<open>
  Claim C9, as the specification states it, gives a pool with the explicit fee 0 the edge
  fee 0. The graph builder tests the fee for truthiness, so the fee 0 is taken for an
  absent one: the edge of such a pool carries the default 0.003.
\<close>

theorem buildGraph_zero_fee_counterexample:
  "getEdgesFrom (buildGraph [pool_of ''uniswap_v3'' ''0xa'' ''0xb'' (Some 0)]) ''0xa''
     = [zero_fee_edge]
   \<and> pool_fee (edge_pool zero_fee_edge) = Some 0
   \<and> edge_fee zero_fee_edge = 3 / 1000
   \<and> edge_fee zero_fee_edge \<noteq> 0"
  by (simp add: buildGraph_def addPool_def push_edge_def getEdgesFrom_def feeDecimal_def
        zero_fee_edge_def pool_of_def lower_tokens Let_def)

text \<open>
  Claim C9, amended: every edge of the built graph belongs to a pool of the snapshot,
  and its fee is the pool's integer fee divided by 1,000,000 when the pool has a fee
  other than 0, and 0.003 when the pool has no fee or the fee 0.
\<close>

theorem buildGraph_edge_fee:
  assumes "e \<in> graph_edges (buildGraph pools)"
  shows "edge_pool e \<in> set pools
         \<and> edge_fee e =
             (case pool_fee (edge_pool e) of
                None \<Rightarrow> 3 / 1000
              | Some f \<Rightarrow> if f = 0 then 3 / 1000 else of_int f / 1000000)"
  using graph_edges_buildGraph [OF assms] by (simp add: feeDecimal_def)

theorem buildGraph_edge_fee_witness:
  "zero_fee_edge \<in> graph_edges (buildGraph [pool_of ''uniswap_v3'' ''0xa'' ''0xb'' (Some 0)])
   \<and> edge_fee zero_fee_edge = 3 / 1000"
proof -
  have "adjacencyList (buildGraph [pool_of ''uniswap_v3'' ''0xa'' ''0xb'' (Some 0)]) ''0xa''
          = Some [zero_fee_edge]"
    by (simp add: buildGraph_def addPool_def push_edge_def feeDecimal_def
          zero_fee_edge_def pool_of_def lower_tokens Let_def)
  then have mem: "zero_fee_edge
                    \<in> graph_edges (buildGraph [pool_of ''uniswap_v3'' ''0xa'' ''0xb'' (Some 0)])"
    unfolding graph_edges_def by force
  from buildGraph_edge_fee [OF mem] mem show ?thesis
    by (simp add: zero_fee_edge_def pool_of_def)
qed

section \<open>Properties of the pathfinder\<close>

text \<open>
  Claim C2 holds that no token occurs twice in a returned path, the source token in
  particular. The search starts with an empty visited set, so the source token is not
  guarded: on the snapshot with the pools \<open>0xa\<close>/\<open>0xb\<close> and \<open>0xa\<close>/\<open>0xc\<close> the search
  from \<open>0xa\<close> to \<open>0xc\<close> returns, beside the direct route, the route that leaves
  \<open>0xa\<close>, comes back to it and only then goes to \<open>0xc\<close>.
\<close>

theorem findRoutes_revisits_source:
  "map path (findRoutes (buildGraph triangle_pools) ''0xa'' ''0xc'')
     = [[''0xa'', ''0xc''], [''0xa'', ''0xb'', ''0xa'', ''0xc'']]"
  by (simp add: findRoutes_def buildGraph_def triangle_pools_def addPool_def push_edge_def
        lower_tokens pool_of_def hasToken_def getEdgesFrom_def MAX_HOPS_def MAX_ROUTES_def
        make_hop_def createRoute_def hop_gas_def feeDecimal_def Let_def)

section \<open>Properties of the packed path\<close>

lemma hex_value_digit: "d < 16 \<Longrightarrow> hex_value (hex_digit d) = d"
proof -
  have "\<forall>d\<in>set [0..<16]. hex_value (hex_digit d) = d" by code_simp
  then show "d < 16 \<Longrightarrow> hex_value (hex_digit d) = d" by simp
qed

lemma hex_digit_lower: "d < 16 \<Longrightarrow> hex_digit d \<in> set ''0123456789abcdef''"
proof -
  have "\<forall>d\<in>set [0..<16]. hex_digit d \<in> set ''0123456789abcdef''" by code_simp
  then show "d < 16 \<Longrightarrow> hex_digit d \<in> set ''0123456789abcdef''" by simp
qed

lemma parse_hex_snoc: "parse_hex (s @ [c]) = parse_hex s * 16 + hex_value c"
  by (simp add: parse_hex_def)

lemma parse_hex_to_hex: "parse_hex (to_hex n) = n"
proof (induction n rule: to_hex.induct)
  case (1 n)
  show ?case
  proof (cases "n < 16")
    case True
    then show ?thesis
      by (subst to_hex.simps) (simp add: parse_hex_def hex_value_digit)
  next
    case False
    with 1 have "parse_hex (to_hex (n div 16)) = n div 16" by simp
    with False show ?thesis
      by (subst to_hex.simps) (simp add: parse_hex_snoc hex_value_digit)
  qed
qed

lemma length_to_hex: "n < 16 ^ k \<Longrightarrow> 0 < k \<Longrightarrow> length (to_hex n) \<le> k"
proof (induction n arbitrary: k rule: to_hex.induct)
  case (1 n)
  show ?case
  proof (cases "n < 16")
    case True
    with 1 show ?thesis by (subst to_hex.simps) simp
  next
    case False
    from False "1.prems" obtain j where k: "k = Suc j" by (cases k) auto
    with False "1.prems" have "0 < j" by (cases j) auto
    moreover from k "1.prems" have "n div 16 < 16 ^ j"
      by (simp add: less_mult_imp_div_less mult.commute)
    ultimately have "length (to_hex (n div 16)) \<le> j"
      using "1.IH" [OF False] by simp
    with False k show ?thesis by (subst to_hex.simps) simp
  qed
qed

lemma to_hex_lower: "set (to_hex n) \<subseteq> set ''0123456789abcdef''"
proof (induction n rule: to_hex.induct)
  case (1 n)
  show ?case
  proof (cases "n < 16")
    case True
    then show ?thesis using hex_digit_lower [of n] by (subst to_hex.simps) simp
  next
    case False
    with 1 have "set (to_hex (n div 16)) \<subseteq> set ''0123456789abcdef''" by simp
    moreover have "hex_digit (n mod 16) \<in> set ''0123456789abcdef''"
      by (rule hex_digit_lower) simp
    ultimately show ?thesis using False by (subst to_hex.simps) simp
  qed
qed

lemma parse_hex_zeros: "parse_hex (replicate m (CHR ''0'') @ s) = parse_hex s"
proof -
  have hv: "hex_value (CHR ''0'') = 0" by code_simp
  have z: "foldl (\<lambda>acc c. acc * 16 + hex_value c) 0 (replicate m (CHR ''0'')) = 0"
    by (induction m) (simp_all add: hv)
  show ?thesis by (simp add: parse_hex_def z)
qed

lemma length_toLowerCase: "length (toLowerCase s) = length s"
  by (simp add: toLowerCase_def)

lemma fee_field:
  assumes "0 \<le> f" "f < 2 ^ 24"
  shows "length (padStart 6 (CHR ''0'') (toString16 f)) = 6"
    and "parse_hex (padStart 6 (CHR ''0'') (toString16 f)) = nat f"
    and "set (padStart 6 (CHR ''0'') (toString16 f)) \<subseteq> set ''0123456789abcdef''"
proof -
  from assms have "nat f < 16 ^ 6" by simp
  then have len: "length (to_hex (nat f)) \<le> 6" by (rule length_to_hex) simp
  with assms show "length (padStart 6 (CHR ''0'') (toString16 f)) = 6"
    by (simp add: padStart_def toString16_def)
  from assms show "parse_hex (padStart 6 (CHR ''0'') (toString16 f)) = nat f"
    by (simp add: padStart_def toString16_def parse_hex_zeros parse_hex_to_hex)
  from assms to_hex_lower [of "nat f"]
  show "set (padStart 6 (CHR ''0'') (toString16 f)) \<subseteq> set ''0123456789abcdef''"
    by (auto simp: padStart_def toString16_def)
qed

lemma address_lower:
  assumes "is_address t"
  shows "length (toLowerCase t) = 42" and "take 2 (toLowerCase t) = ''0x''"
    and "''0x'' @ drop 2 (toLowerCase t) = toLowerCase t"
proof -
  from assms show l: "length (toLowerCase t) = 42"
    by (simp add: is_address_def toLowerCase_def)
  from assms have "take 2 (toLowerCase t) = toLowerCase (take 2 t)"
    by (simp add: toLowerCase_def take_map)
  with assms show t2: "take 2 (toLowerCase t) = ''0x''"
    by (simp add: is_address_def toLowerCase_def lower_char_def)
  from t2 show "''0x'' @ drop 2 (toLowerCase t) = toLowerCase t"
    by (metis append_take_drop_id)
qed

text \<open>
  Claim C5: a path of three addresses and two fee tiers (each below \<open>2\<^sup>2\<^sup>4\<close>) is encoded
  as the lowercase first address of 42 characters, followed twice by a fee of exactly
  six lowercase hex digits and the 40 hex digits of the next lowercase address;
  reading the string back at the fixed offsets gives the lowercase addresses and the
  fees; and the encoder throws exactly when the number of tokens is not the number of
  fees plus one.
\<close>

theorem encodeV3Path_roundtrip:
  "((\<exists>e. encodeV3Path ts fs = Inl e) \<longleftrightarrow> length ts \<noteq> length fs + 1)
   \<and> (is_address t0 \<and> is_address t1 \<and> is_address t2
        \<and> 0 \<le> f1 \<and> f1 < 2 ^ 24 \<and> 0 \<le> f2 \<and> f2 < 2 ^ 24 \<longrightarrow>
       encodeV3Path [t0, t1, t2] [f1, f2]
         = Inr (toLowerCase t0
                @ padStart 6 (CHR ''0'') (toString16 f1) @ drop 2 (toLowerCase t1)
                @ padStart 6 (CHR ''0'') (toString16 f2) @ drop 2 (toLowerCase t2))
       \<and> length (toLowerCase t0) = 42
       \<and> length (padStart 6 (CHR ''0'') (toString16 f1)) = 6
       \<and> length (drop 2 (toLowerCase t1)) = 40
       \<and> length (padStart 6 (CHR ''0'') (toString16 f2)) = 6
       \<and> length (drop 2 (toLowerCase t2)) = 40
       \<and> set (padStart 6 (CHR ''0'') (toString16 f1)) \<subseteq> set ''0123456789abcdef''
       \<and> set (padStart 6 (CHR ''0'') (toString16 f2)) \<subseteq> set ''0123456789abcdef''
       \<and> (\<forall>s. encodeV3Path [t0, t1, t2] [f1, f2] = Inr s \<longrightarrow>
              spec_decodeV3Path s
                = ([toLowerCase t0, toLowerCase t1, toLowerCase t2], [f1, f2])))"
proof (intro conjI impI)
  show "(\<exists>e. encodeV3Path ts fs = Inl e) \<longleftrightarrow> length ts \<noteq> length fs + 1"
    by (simp add: encodeV3Path_def)
next
  assume h: "is_address t0 \<and> is_address t1 \<and> is_address t2
        \<and> 0 \<le> f1 \<and> f1 < 2 ^ 24 \<and> 0 \<le> f2 \<and> f2 < 2 ^ 24"
  have enc: "encodeV3Path [t0, t1, t2] [f1, f2]
         = Inr (toLowerCase t0
                @ padStart 6 (CHR ''0'') (toString16 f1) @ drop 2 (toLowerCase t1)
                @ padStart 6 (CHR ''0'') (toString16 f2) @ drop 2 (toLowerCase t2))"
    by (simp add: encodeV3Path_def upt_rec_numeral Let_def)
  note a0 = address_lower [of t0] and a1 = address_lower [of t1] and a2 = address_lower [of t2]
  note g1 = fee_field [of f1] and g2 = fee_field [of f2]
  show "encodeV3Path [t0, t1, t2] [f1, f2]
         = Inr (toLowerCase t0
                @ padStart 6 (CHR ''0'') (toString16 f1) @ drop 2 (toLowerCase t1)
                @ padStart 6 (CHR ''0'') (toString16 f2) @ drop 2 (toLowerCase t2))"
    by (rule enc)
  show "length (toLowerCase t0) = 42" using h a0 by simp
  show "length (padStart 6 (CHR ''0'') (toString16 f1)) = 6" using h g1 by simp
  show "length (drop 2 (toLowerCase t1)) = 40" using h a1 by simp
  show "length (padStart 6 (CHR ''0'') (toString16 f2)) = 6" using h g2 by simp
  show "length (drop 2 (toLowerCase t2)) = 40" using h a2 by simp
  show "set (padStart 6 (CHR ''0'') (toString16 f1)) \<subseteq> set ''0123456789abcdef''"
    using h g1 by simp
  show "set (padStart 6 (CHR ''0'') (toString16 f2)) \<subseteq> set ''0123456789abcdef''"
    using h g2 by simp
  show "\<forall>s. encodeV3Path [t0, t1, t2] [f1, f2] = Inr s \<longrightarrow>
              spec_decodeV3Path s
                = ([toLowerCase t0, toLowerCase t1, toLowerCase t2], [f1, f2])"
  proof (intro allI impI)
    fix s assume "encodeV3Path [t0, t1, t2] [f1, f2] = Inr s"
    with enc have s: "s = toLowerCase t0
                @ padStart 6 (CHR ''0'') (toString16 f1) @ drop 2 (toLowerCase t1)
                @ padStart 6 (CHR ''0'') (toString16 f2) @ drop 2 (toLowerCase t2)" by simp
    from h a0 a1 a2 g1 g2 show "spec_decodeV3Path s
                = ([toLowerCase t0, toLowerCase t1, toLowerCase t2], [f1, f2])"
      unfolding s spec_decodeV3Path_def by simp
  qed
qed


theorem encodeV3Path_roundtrip_witness:
  "is_address weth \<and> is_address usdc \<and> is_address dai
   \<and> (0::int) \<le> 500 \<and> (500::int) < 2 ^ 24 \<and> (0::int) \<le> 3000 \<and> (3000::int) < 2 ^ 24
   \<and> encodeV3Path [weth, usdc, dai] [500, 3000]
       = Inr ''0xc02aaa39b223fe8d0a0e5c4f27ead9083c756cc20001f4a0b86991c6218b36c1d19d4a2e9eb0ce3606eb48000bb86b175474e89094c44da98b954eedeac495271d0f''
   \<and> spec_decodeV3Path ''0xc02aaa39b223fe8d0a0e5c4f27ead9083c756cc20001f4a0b86991c6218b36c1d19d4a2e9eb0ce3606eb48000bb86b175474e89094c44da98b954eedeac495271d0f''
       = ([''0xc02aaa39b223fe8d0a0e5c4f27ead9083c756cc2'', ''0xa0b86991c6218b36c1d19d4a2e9eb0ce3606eb48'',
           ''0x6b175474e89094c44da98b954eedeac495271d0f''], [500, 3000])"
proof -
  have lw: "toLowerCase weth = ''0xc02aaa39b223fe8d0a0e5c4f27ead9083c756cc2''"
    and lu: "toLowerCase usdc = ''0xa0b86991c6218b36c1d19d4a2e9eb0ce3606eb48''"
    and ld: "toLowerCase dai = ''0x6b175474e89094c44da98b954eedeac495271d0f''"
    by (simp_all add: toLowerCase_def lower_char_def weth_def usdc_def dai_def)
  have hx: "toString16 500 = ''1f4''" "toString16 3000 = ''bb8''"
    by (simp_all add: toString16_def to_hex.simps hex_digit_def)
  have ad: "is_address weth" "is_address usdc" "is_address dai"
    by (simp_all add: is_address_def weth_def usdc_def dai_def is_hex_char_def)
  from encodeV3Path_roundtrip [of "[weth, usdc, dai]" "[500, 3000]" weth usdc dai 500 3000] ad
  show ?thesis
    by (simp add: lw lu ld hx padStart_def numeral_3_eq_3)
qed


section \<open>Properties of the fee tier selection\<close>

lemma tier_fold:
  assumes "foldl (tryFeeTier provider qa tIn tOut amt) (b0, f0) tiers = (b, f)"
  shows "b0 \<le> b
     \<and> (\<forall>fee\<in>set tiers. \<forall>out. read_quoteExactInputSingle provider qa tIn tOut amt fee = Inr out
           \<longrightarrow> out \<le> b)
     \<and> ((b = b0 \<and> f = f0)
        \<or> (b0 < b \<and> (\<exists>i<length tiers. tiers ! i = f
               \<and> read_quoteExactInputSingle provider qa tIn tOut amt f = Inr b
               \<and> (\<forall>j<i. \<forall>out. read_quoteExactInputSingle provider qa tIn tOut amt (tiers ! j) = Inr out
                      \<longrightarrow> out < b))))"
  using assms
proof (induction tiers arbitrary: b f rule: rev_induct)
  case Nil
  then show ?case by simp
next
  case (snoc x xs)
  obtain b' f' where prev: "foldl (tryFeeTier provider qa tIn tOut amt) (b0, f0) xs = (b', f')"
    by (cases "foldl (tryFeeTier provider qa tIn tOut amt) (b0, f0) xs") auto
  note ih = snoc.IH [OF prev]
  from snoc.prems prev have step: "tryFeeTier provider qa tIn tOut amt (b', f') x = (b, f)"
    by simp
  show ?case
  proof (cases "read_quoteExactInputSingle provider qa tIn tOut amt x")
    case (Inl e)
    with step have eq: "b = b'" "f = f'" by (simp_all add: tryFeeTier_def)
    from ih Inl show ?thesis unfolding eq
      by (auto simp: nth_append intro!: exI)
  next
    case (Inr out)
    show ?thesis
    proof (cases "out > b'")
      case True
      with step Inr have eq: "b = out" "f = x" by (simp_all add: tryFeeTier_def)
      have "\<forall>j<length xs. \<forall>o'. read_quoteExactInputSingle provider qa tIn tOut amt ((xs @ [x]) ! j) = Inr o'
              \<longrightarrow> o' < out"
        using ih True by (fastforce simp: nth_append)
      moreover have "(xs @ [x]) ! length xs = x" by simp
      ultimately have "\<exists>i<length (xs @ [x]). (xs @ [x]) ! i = x
               \<and> read_quoteExactInputSingle provider qa tIn tOut amt x = Inr out
               \<and> (\<forall>j<i. \<forall>o'. read_quoteExactInputSingle provider qa tIn tOut amt ((xs @ [x]) ! j) = Inr o'
                      \<longrightarrow> o' < out)"
        using Inr by (intro exI [of _ "length xs"]) simp
      moreover from ih True have "b0 < out" by simp
      moreover from ih True Inr
      have "\<forall>fee\<in>set (xs @ [x]). \<forall>o'. read_quoteExactInputSingle provider qa tIn tOut amt fee = Inr o'
           \<longrightarrow> o' \<le> out" by fastforce
      ultimately show ?thesis unfolding eq by simp
    next
      case False
      with step Inr have eq: "b = b'" "f = f'" by (simp_all add: tryFeeTier_def)
      from ih have c1: "b0 \<le> b'" by simp
      from ih Inr False
      have c2: "\<forall>fee\<in>set (xs @ [x]). \<forall>o'. read_quoteExactInputSingle provider qa tIn tOut amt fee = Inr o'
           \<longrightarrow> o' \<le> b'" by fastforce
      from ih have "(b' = b0 \<and> f' = f0)
        \<or> (b0 < b' \<and> (\<exists>i<length xs. xs ! i = f'
               \<and> read_quoteExactInputSingle provider qa tIn tOut amt f' = Inr b'
               \<and> (\<forall>j<i. \<forall>out. read_quoteExactInputSingle provider qa tIn tOut amt (xs ! j) = Inr out
                      \<longrightarrow> out < b')))" by simp
      then have c3: "(b' = b0 \<and> f' = f0)
        \<or> (b0 < b' \<and> (\<exists>i<length (xs @ [x]). (xs @ [x]) ! i = f'
               \<and> read_quoteExactInputSingle provider qa tIn tOut amt f' = Inr b'
               \<and> (\<forall>j<i. \<forall>out. read_quoteExactInputSingle provider qa tIn tOut amt ((xs @ [x]) ! j) = Inr out
                      \<longrightarrow> out < b')))"
      proof
        assume "b' = b0 \<and> f' = f0" then show ?thesis by simp
      next
        assume r: "b0 < b' \<and> (\<exists>i<length xs. xs ! i = f'
               \<and> read_quoteExactInputSingle provider qa tIn tOut amt f' = Inr b'
               \<and> (\<forall>j<i. \<forall>out. read_quoteExactInputSingle provider qa tIn tOut amt (xs ! j) = Inr out
                      \<longrightarrow> out < b'))"
        then obtain i where i: "i < length xs" "xs ! i = f'"
            "read_quoteExactInputSingle provider qa tIn tOut amt f' = Inr b'"
            "\<forall>j<i. \<forall>out. read_quoteExactInputSingle provider qa tIn tOut amt (xs ! j) = Inr out
                      \<longrightarrow> out < b'" by blast
        then have "i < length (xs @ [x]) \<and> (xs @ [x]) ! i = f'
               \<and> read_quoteExactInputSingle provider qa tIn tOut amt f' = Inr b'
               \<and> (\<forall>j<i. \<forall>out. read_quoteExactInputSingle provider qa tIn tOut amt ((xs @ [x]) ! j) = Inr out
                      \<longrightarrow> out < b')"
          by (simp add: nth_append)
        with r show ?thesis by blast
      qed
      from c1 c2 c3 show ?thesis unfolding eq by blast
    qed
  qed
qed


lemma getV3SingleHopQuote_cases:
  assumes "foldl (tryFeeTier provider qa tIn tOut amt) (0, V3_FEE_TIERS ! 1) V3_FEE_TIERS = (b, f)"
  shows "getV3SingleHopQuote dexId provider qa tIn tOut amt dec =
           (if b = 0 then Inr None
            else case DEX_INFO dexId of
                   None \<Rightarrow> Inr None
                 | Some dexInfo \<Rightarrow>
                     Inr (Some \<lparr>dq_dexId = dexId, dq_dexName = fst dexInfo,
                             dq_amountOut = b,
                             dq_amountOutFormatted = formatUnits (int b) dec,
                             dq_estimatedGas = 150000, dq_feeTier = Some f,
                             dq_feeTiers = None, dq_path = Some [tIn, tOut],
                             dq_pathEncoded = None, dq_isMultiHop = Some False,
                             dq_priceImpact = 1 / 2\<rparr>))"
  using assms by (simp add: getV3SingleHopQuote_def try_catch_def Let_def split: option.splits)

text \<open>
  Claim C6, amended. Direct pair quoting tries every configured fee tier and keeps the
  tier with the greatest output; between tiers of equal output the one that comes first
  in the configured order is kept (every earlier tier answered strictly less), and a
  quote exists only if some tier answered with a positive amount and the venue is known.
  Per-route hop quoting reads the quoter once, at the fee of the hop's own pool (3000
  when the pool has no fee or the fee 0): its answer does not depend on any other tier.
\<close>

theorem fee_tier_selection:
  "(\<exists>r. getV3SingleHopQuote dexId provider qa tIn tOut amt dec = Inr r
       \<and> (r = None \<longleftrightarrow>
            DEX_INFO dexId = None
            \<or> (\<forall>fee\<in>set V3_FEE_TIERS. \<forall>out.
                  read_quoteExactInputSingle provider qa tIn tOut amt fee = Inr out \<longrightarrow> out = 0))
       \<and> (\<forall>quote. r = Some quote \<longrightarrow>
            (\<exists>i<length V3_FEE_TIERS.
                dq_feeTier quote = Some (V3_FEE_TIERS ! i)
              \<and> read_quoteExactInputSingle provider qa tIn tOut amt (V3_FEE_TIERS ! i)
                  = Inr (dq_amountOut quote)
              \<and> (\<forall>fee\<in>set V3_FEE_TIERS. \<forall>out.
                    read_quoteExactInputSingle provider qa tIn tOut amt fee = Inr out
                    \<longrightarrow> out \<le> dq_amountOut quote)
              \<and> (\<forall>j<i. \<forall>out.
                    read_quoteExactInputSingle provider qa tIn tOut amt (V3_FEE_TIERS ! j) = Inr out
                    \<longrightarrow> out < dq_amountOut quote))))
   \<and> ((\<forall>a. quoteExactInputSingle provider' a (hop_tokenIn hop) (hop_tokenOut hop) amt (hop_pool_fee hop)
             = quoteExactInputSingle provider a (hop_tokenIn hop) (hop_tokenOut hop) amt (hop_pool_fee hop))
        \<longrightarrow> getV3HopQuote provider' qa hop amt = getV3HopQuote provider qa hop amt)
   \<and> (\<forall>h. getV3HopQuote provider qa hop amt = Inr (Some h) \<longrightarrow>
          hq_fee h = Some (hop_pool_fee hop)
        \<and> read_quoteExactInputSingle provider qa (hop_tokenIn hop) (hop_tokenOut hop) amt
             (hop_pool_fee hop) = Inr (hq_amountOut h))"
proof (intro conjI)
  obtain b f where bf:
    "foldl (tryFeeTier provider qa tIn tOut amt) (0, V3_FEE_TIERS ! 1) V3_FEE_TIERS = (b, f)"
    by (cases "foldl (tryFeeTier provider qa tIn tOut amt) (0, V3_FEE_TIERS ! 1) V3_FEE_TIERS") auto
  note res = getV3SingleHopQuote_cases [OF bf, of dexId dec]
  note tf = tier_fold [OF bf]
  from tf have upper: "\<forall>fee\<in>set V3_FEE_TIERS. \<forall>out.
      read_quoteExactInputSingle provider qa tIn tOut amt fee = Inr out \<longrightarrow> out \<le> b" by blast
  have zero_iff: "b = 0 \<longleftrightarrow> (\<forall>fee\<in>set V3_FEE_TIERS. \<forall>out.
      read_quoteExactInputSingle provider qa tIn tOut amt fee = Inr out \<longrightarrow> out = 0)"
  proof
    assume "b = 0" with upper show "\<forall>fee\<in>set V3_FEE_TIERS. \<forall>out.
      read_quoteExactInputSingle provider qa tIn tOut amt fee = Inr out \<longrightarrow> out = 0" by auto
  next
    assume all0: "\<forall>fee\<in>set V3_FEE_TIERS. \<forall>out.
      read_quoteExactInputSingle provider qa tIn tOut amt fee = Inr out \<longrightarrow> out = 0"
    show "b = 0"
    proof (rule ccontr)
      assume "b \<noteq> 0"
      with tf obtain i where "i < length V3_FEE_TIERS" "V3_FEE_TIERS ! i = f"
        "read_quoteExactInputSingle provider qa tIn tOut amt f = Inr b" by auto
      with all0 have "b = 0" by (metis nth_mem)
      with \<open>b \<noteq> 0\<close> show False by simp
    qed
  qed
  show "\<exists>r. getV3SingleHopQuote dexId provider qa tIn tOut amt dec = Inr r
       \<and> (r = None \<longleftrightarrow>
            DEX_INFO dexId = None
            \<or> (\<forall>fee\<in>set V3_FEE_TIERS. \<forall>out.
                  read_quoteExactInputSingle provider qa tIn tOut amt fee = Inr out \<longrightarrow> out = 0))
       \<and> (\<forall>quote. r = Some quote \<longrightarrow>
            (\<exists>i<length V3_FEE_TIERS.
                dq_feeTier quote = Some (V3_FEE_TIERS ! i)
              \<and> read_quoteExactInputSingle provider qa tIn tOut amt (V3_FEE_TIERS ! i)
                  = Inr (dq_amountOut quote)
              \<and> (\<forall>fee\<in>set V3_FEE_TIERS. \<forall>out.
                    read_quoteExactInputSingle provider qa tIn tOut amt fee = Inr out
                    \<longrightarrow> out \<le> dq_amountOut quote)
              \<and> (\<forall>j<i. \<forall>out.
                    read_quoteExactInputSingle provider qa tIn tOut amt (V3_FEE_TIERS ! j) = Inr out
                    \<longrightarrow> out < dq_amountOut quote)))"
  proof (cases "b = 0")
    case True
    with res zero_iff show ?thesis by simp
  next
    case False
    with tf obtain i where i: "i < length V3_FEE_TIERS" "V3_FEE_TIERS ! i = f"
        "read_quoteExactInputSingle provider qa tIn tOut amt f = Inr b"
        "\<forall>j<i. \<forall>out. read_quoteExactInputSingle provider qa tIn tOut amt (V3_FEE_TIERS ! j) = Inr out
                      \<longrightarrow> out < b" by auto
    show ?thesis
    proof (cases "DEX_INFO dexId")
      case None
      with res False show ?thesis by simp
    next
      case (Some dexInfo)
      with res False zero_iff i upper show ?thesis
        by (auto intro!: exI [of _ i])
    qed
  qed
next
  show "(\<forall>a. quoteExactInputSingle provider' a (hop_tokenIn hop) (hop_tokenOut hop) amt (hop_pool_fee hop)
             = quoteExactInputSingle provider a (hop_tokenIn hop) (hop_tokenOut hop) amt (hop_pool_fee hop))
        \<longrightarrow> getV3HopQuote provider' qa hop amt = getV3HopQuote provider qa hop amt"
    by (simp add: getV3HopQuote_def read_quoteExactInputSingle_def Let_def split: option.splits)
next
  show "\<forall>h. getV3HopQuote provider qa hop amt = Inr (Some h) \<longrightarrow>
          hq_fee h = Some (hop_pool_fee hop)
        \<and> read_quoteExactInputSingle provider qa (hop_tokenIn hop) (hop_tokenOut hop) amt
             (hop_pool_fee hop) = Inr (hq_amountOut h)"
    by (auto simp: getV3HopQuote_def try_catch_def Let_def split: sum.splits)
qed

text \<open>
  Claim C6 as stated fails twice. When every tier answers 100, the tier kept is 500,
  the first one, although the middle tier 3000 answers 100 as well. And a hop whose
  pool has the fee 3000 gets no quote from a quoter that would answer at tier 500: the
  other tiers are not tried.
\<close>

theorem fee_tier_tie_counterexample:
  "getV3SingleHopQuote ''uniswap_v3'' flat_provider (Some ''0xq'') ''0xa'' ''0xb'' 1 0
     = Inr (Some \<lparr>dq_dexId = ''uniswap_v3'', dq_dexName = ''Uniswap V3'', dq_amountOut = 100,
                  dq_amountOutFormatted = 100, dq_estimatedGas = 150000, dq_feeTier = Some 500,
                  dq_feeTiers = None, dq_path = Some [''0xa'', ''0xb''], dq_pathEncoded = None,
                  dq_isMultiHop = Some False, dq_priceImpact = 1 / 2\<rparr>)
   \<and> quoteExactInputSingle flat_provider ''0xq'' ''0xa'' ''0xb'' 1 3000 = Inr 100
   \<and> getV3HopQuote low_tier_provider (Some ''0xq'')
        (hop_of (pool_of ''uniswap_v3'' ''0xa'' ''0xb'' (Some 3000))) 1 = Inr None
   \<and> quoteExactInputSingle low_tier_provider ''0xq'' ''0xa'' ''0xb'' 1 500 = Inr 100"
  by (simp add: getV3SingleHopQuote_def try_catch_def tryFeeTier_def V3_FEE_TIERS_def
        read_quoteExactInputSingle_def flat_provider_def low_tier_provider_def DEX_INFO_def
        formatUnits_def getV3HopQuote_def hop_pool_fee_def hop_of_def make_hop_def pool_of_def
        lower_tokens Let_def)

theorem fee_tier_selection_witness:
  "getV3SingleHopQuote ''uniswap_v3'' low_tier_provider (Some ''0xq'') ''0xa'' ''0xb'' 1 0
     = Inr (Some \<lparr>dq_dexId = ''uniswap_v3'', dq_dexName = ''Uniswap V3'', dq_amountOut = 100,
                  dq_amountOutFormatted = 100, dq_estimatedGas = 150000, dq_feeTier = Some 500,
                  dq_feeTiers = None, dq_path = Some [''0xa'', ''0xb''], dq_pathEncoded = None,
                  dq_isMultiHop = Some False, dq_priceImpact = 1 / 2\<rparr>)
   \<and> getV3HopQuote low_tier_provider (Some ''0xq'')
        (hop_of (pool_of ''uniswap_v3'' ''0xa'' ''0xb'' (Some 500))) 1
       = getV3HopQuote flat_provider (Some ''0xq'')
        (hop_of (pool_of ''uniswap_v3'' ''0xa'' ''0xb'' (Some 500))) 1"
proof -
  have agree: "\<forall>a. quoteExactInputSingle low_tier_provider a
                  (hop_tokenIn (hop_of (pool_of ''uniswap_v3'' ''0xa'' ''0xb'' (Some 500))))
                  (hop_tokenOut (hop_of (pool_of ''uniswap_v3'' ''0xa'' ''0xb'' (Some 500)))) 1
                  (hop_pool_fee (hop_of (pool_of ''uniswap_v3'' ''0xa'' ''0xb'' (Some 500))))
             = quoteExactInputSingle flat_provider a
                  (hop_tokenIn (hop_of (pool_of ''uniswap_v3'' ''0xa'' ''0xb'' (Some 500))))
                  (hop_tokenOut (hop_of (pool_of ''uniswap_v3'' ''0xa'' ''0xb'' (Some 500)))) 1
                  (hop_pool_fee (hop_of (pool_of ''uniswap_v3'' ''0xa'' ''0xb'' (Some 500))))"
    by (simp add: low_tier_provider_def flat_provider_def hop_pool_fee_def hop_of_def
          make_hop_def pool_of_def)
  have single: "getV3SingleHopQuote ''uniswap_v3'' low_tier_provider (Some ''0xq'') ''0xa'' ''0xb'' 1 0
     = Inr (Some \<lparr>dq_dexId = ''uniswap_v3'', dq_dexName = ''Uniswap V3'', dq_amountOut = 100,
                  dq_amountOutFormatted = 100, dq_estimatedGas = 150000, dq_feeTier = Some 500,
                  dq_feeTiers = None, dq_path = Some [''0xa'', ''0xb''], dq_pathEncoded = None,
                  dq_isMultiHop = Some False, dq_priceImpact = 1 / 2\<rparr>)"
    by (simp add: getV3SingleHopQuote_def try_catch_def tryFeeTier_def V3_FEE_TIERS_def
        read_quoteExactInputSingle_def low_tier_provider_def DEX_INFO_def formatUnits_def Let_def)
  from fee_tier_selection
         [where dexId = "''uniswap_v3''" and provider = low_tier_provider
            and qa = "Some ''0xq''" and tIn = "''0xa''" and tOut = "''0xb''" and amt = 1
            and dec = 0 and provider' = flat_provider
            and hop = "hop_of (pool_of ''uniswap_v3'' ''0xa'' ''0xb'' (Some 500))"]
  have "getV3HopQuote low_tier_provider (Some ''0xq'')
        (hop_of (pool_of ''uniswap_v3'' ''0xa'' ''0xb'' (Some 500))) 1
       = getV3HopQuote flat_provider (Some ''0xq'')
        (hop_of (pool_of ''uniswap_v3'' ''0xa'' ''0xb'' (Some 500))) 1"
    using agree by metis
  with single show ?thesis by simp
qed

section \<open>Properties of the route quoting service\<close>

lemma mset_js_insert: "mset (js_insert cmp x ys) = add_mset x (mset ys)"
  by (induction ys) auto

lemma mset_js_sort: "mset (js_sort cmp xs) = mset xs"
  by (induction xs) (auto simp: mset_js_insert)

lemma set_js_sort: "set (js_sort cmp xs) = set xs"
  by (metis mset_js_sort set_mset_mset)

lemma length_js_sort: "length (js_sort cmp xs) = length xs"
  by (metis mset_js_sort size_mset)

lemma sorted_js_insert:
  assumes "\<And>a b. cmp a b \<le> 0 \<longleftrightarrow> key b \<le> (key a :: nat)"
    and "sorted_wrt (\<lambda>a b. key b \<le> key a) ys"
  shows "sorted_wrt (\<lambda>a b. key b \<le> key a) (js_insert cmp x ys)"
  using assms(2)
proof (induction ys)
  case Nil
  then show ?case by simp
next
  case (Cons y ys)
  show ?case
  proof (cases "cmp x y \<le> 0")
    case True
    with assms(1) have "key y \<le> key x" by simp
    with Cons.prems True show ?thesis by fastforce
  next
    case False
    with assms(1) have "key x \<le> key y" by (metis linear)
    moreover have "set (js_insert cmp x ys) = insert x (set ys)"
      by (metis mset_js_insert set_mset_add_mset_insert set_mset_mset)
    ultimately show ?thesis using Cons False by auto
  qed
qed

lemma sorted_js_sort:
  assumes "\<And>a b. cmp a b \<le> 0 \<longleftrightarrow> key b \<le> (key a :: nat)"
  shows "sorted_wrt (\<lambda>a b. key b \<le> key a) (js_sort cmp xs)"
  by (induction xs) (simp_all add: sorted_js_insert [OF assms])

lemma try_catch_absorb:
  "try_catch body (\<lambda>e. Inr x) = Inr (case body of Inl e \<Rightarrow> x | Inr v \<Rightarrow> v)"
  by (cases body) (simp_all add: try_catch_def)

lemma try_catch_null: "\<exists>r. try_catch body (\<lambda>e. Inr None) = Inr r"
  by (simp add: try_catch_absorb)



lemma getHopQuote_returns: "\<exists>r. getHopQuote chainId provider hop a = Inr r"
  by (simp add: getHopQuote_def try_catch_absorb split: option.splits)


lemma getHopQuote_revert:
  assumes "\<forall>a. \<exists>e. quoteExactInputSingle provider a (hop_tokenIn hop) (hop_tokenOut hop) amt
                    (hop_pool_fee hop) = Inl e"
    and "\<forall>a. \<exists>e. getAmountsOut provider a amt [hop_tokenIn hop, hop_tokenOut hop] = Inl e"
  shows "getHopQuote chainId provider hop amt = Inr None"
proof -
  have v3: "getV3HopQuote provider qa hop amt = Inr None" for qa
  proof (cases qa)
    case None
    then show ?thesis
      by (simp add: getV3HopQuote_def read_quoteExactInputSingle_def try_catch_def Let_def)
  next
    case (Some a)
    with assms(1) obtain e where
      "quoteExactInputSingle provider a (hop_tokenIn hop) (hop_tokenOut hop) amt (hop_pool_fee hop) = Inl e"
      by blast
    with Some show ?thesis
      by (simp add: getV3HopQuote_def read_quoteExactInputSingle_def try_catch_def Let_def)
  qed
  have v2: "getV2HopQuote provider ra hop amt = Inr None" for ra
  proof -
    from assms(2) obtain e where
      "getAmountsOut provider ra amt [hop_tokenIn hop, hop_tokenOut hop] = Inl e" by blast
    then show ?thesis by (simp add: getV2HopQuote_def try_catch_def)
  qed
  show ?thesis
    by (simp add: getHopQuote_def v3 v2 try_catch_def split: option.splits)
qed

lemma quoteHops_returns: "\<exists>r. quoteHops chainId provider hs a acc = Inr r"
proof (induction hs arbitrary: a acc)
  case Nil
  then show ?case by simp
next
  case (Cons h hs)
  from getHopQuote_returns obtain r where r: "getHopQuote chainId provider h a = Inr r" by blast
  show ?case
  proof (cases r)
    case None
    with r show ?thesis by simp
  next
    case (Some hq)
    with r Cons.IH [of "hq_amountOut hq" "acc @ [hq]"] show ?thesis by simp
  qed
qed

lemma quoteHops_append:
  "quoteHops chainId provider (xs @ ys) a acc =
     (case quoteHops chainId provider xs a acc of
        Inl e \<Rightarrow> Inl e
      | Inr None \<Rightarrow> Inr None
      | Inr (Some (acc', a')) \<Rightarrow> quoteHops chainId provider ys a' acc')"
  by (induction xs arbitrary: a acc) (auto split: sum.splits option.splits)



lemma getQuoteForRoute_returns:
  "\<exists>r. getQuoteForRoute chainId provider route amountIn toDecimals = Inr r"
  unfolding getQuoteForRoute_def by (rule try_catch_null)

lemma getQuoteForRoute_Some:
  "getQuoteForRoute chainId provider route amountIn toDecimals = Inr (Some q) \<longleftrightarrow>
     (\<exists>hs out. quoteHops chainId provider (hops route) amountIn [] = Inr (Some (hs, out))
        \<and> q = \<lparr>rq_route = route, rq_amountIn = amountIn, rq_amountOut = out,
                 rq_amountOutFormatted = formatUnits (int out) toDecimals,
                 rq_priceImpact = estimatePriceImpact (totalHops route) amountIn,
                 rq_estimatedGas = route_estimatedGas route, hopsData = hs\<rparr>)"
  by (auto simp: getQuoteForRoute_def try_catch_def split: sum.splits option.splits)

lemma getQuoteForRoute_None:
  "getQuoteForRoute chainId provider route amountIn toDecimals = Inr None \<longleftrightarrow>
     quoteHops chainId provider (hops route) amountIn [] = Inr None"
  using quoteHops_returns [of chainId provider "hops route" amountIn "[]"]
  by (auto simp: getQuoteForRoute_def try_catch_def split: sum.splits option.splits)

lemma promise_all_returns:
  assumes "\<forall>r\<in>set rs. \<exists>v. r = Inr v"
  shows "promise_all rs = Inr (map projr rs)"
  using assms by (induction rs) auto

lemma set_not_null: "set (not_null xs) = {v. Some v \<in> set xs}"
  by (induction xs) (auto simp: not_null_def split: option.splits)

lemma getQuotesForRoutes_eq:
  "getQuotesForRoutes chainId provider routes amountIn toDecimals =
     Inr (js_sort cmp_route_quotes
           (not_null (map (\<lambda>route. projr (getQuoteForRoute chainId provider route amountIn toDecimals))
                        routes)))"
proof -
  have "\<forall>r\<in>set (map (\<lambda>route. getQuoteForRoute chainId provider route amountIn toDecimals) routes).
          \<exists>v. r = Inr v"
    using getQuoteForRoute_returns by auto
  from promise_all_returns [OF this] show ?thesis
    by (simp add: getQuotesForRoutes_def comp_def)
qed

lemma getQuotesForRoutes_set:
  assumes "getQuotesForRoutes chainId provider routes amountIn toDecimals = Inr quotes"
  shows "set quotes = {q. \<exists>route\<in>set routes.
            getQuoteForRoute chainId provider route amountIn toDecimals = Inr (Some q)}"
proof -
  have eq: "projr (getQuoteForRoute chainId provider route amountIn toDecimals) = Some q \<longleftrightarrow>
        getQuoteForRoute chainId provider route amountIn toDecimals = Inr (Some q)" for route q
    using getQuoteForRoute_returns [of chainId provider route amountIn toDecimals] by auto
  from assms have "set quotes =
      {v. Some v \<in> (\<lambda>route. projr (getQuoteForRoute chainId provider route amountIn toDecimals))
                       ` set routes}"
    unfolding getQuotesForRoutes_eq by (auto simp: set_js_sort set_not_null)
  also have "\<dots> = {q. \<exists>route\<in>set routes.
            projr (getQuoteForRoute chainId provider route amountIn toDecimals) = Some q}"
    by (auto simp: image_iff intro: sym)
  finally show ?thesis by (simp add: eq)
qed




lemma demo_hop_quotes:
  "getHopQuote 137 demo_provider (hop_of (pool_of ''uniswap_v3'' ''0xa'' ''0xc'' (Some 3000))) 1000
     = Inr None"
  "getHopQuote 137 demo_provider (hop_of (pool_of ''uniswap_v3'' ''0xa'' ''0xc'' (Some 500))) 1000
     = Inr (Some \<lparr>hq_poolAddress = ''0xpool'', hq_dexId = ''uniswap_v3'', hq_tokenIn = ''0xa'',
                   hq_tokenOut = ''0xc'', hq_amountIn = 1000, hq_amountOut = 3000,
                   hq_fee = Some 500\<rparr>)"
  "getHopQuote 137 demo_provider (hop_of (pool_of ''uniswap_v3'' ''0xa'' ''0xb'' (Some 3000))) 1000
     = Inr (Some \<lparr>hq_poolAddress = ''0xpool'', hq_dexId = ''uniswap_v3'', hq_tokenIn = ''0xa'',
                   hq_tokenOut = ''0xb'', hq_amountIn = 1000, hq_amountOut = 2000,
                   hq_fee = Some 3000\<rparr>)"
  "getHopQuote 137 demo_provider (hop_of (pool_of ''uniswap_v3'' ''0xb'' ''0xc'' (Some 3000))) 2000
     = Inr (Some \<lparr>hq_poolAddress = ''0xpool'', hq_dexId = ''uniswap_v3'', hq_tokenIn = ''0xb'',
                   hq_tokenOut = ''0xc'', hq_amountIn = 2000, hq_amountOut = 2005,
                   hq_fee = Some 3000\<rparr>)"
  by (simp_all add: getHopQuote_def DEX_INFO_def DEX_CONTRACTS_def v3c_def v2c_def
        getV3HopQuote_def read_quoteExactInputSingle_def try_catch_def hop_pool_fee_def
        hop_of_def make_hop_def pool_of_def demo_provider_def lower_tokens Let_def)

lemma hop_of_dexId: "hop_dexId (hop_of (pool_of d a b f)) = d"
  by (simp add: hop_of_def make_hop_def pool_of_def)

lemma demo_route_quotes:
  "getQuoteForRoute 137 demo_provider route_ac_3000 1000 0 = Inr None"
  "getQuoteForRoute 137 demo_provider route_ac_500 1000 0 = Inr (Some quote_ac_500)"
  "getQuoteForRoute 137 demo_provider route_ab_bc 1000 0 = Inr (Some quote_ab_bc)"
  by (simp_all add: getQuoteForRoute_def try_catch_def route_ac_3000_def route_ac_500_def
        route_ab_bc_def createRoute_def demo_hop_quotes quote_ac_500_def quote_ab_bc_def
        formatUnits_def estimatePriceImpact_def hop_gas_def hop_of_dexId Let_def)

text \<open>
  Claim C7: quoting a list of routes never throws. A route with a hop whose quote
  attempt fails (the hops before it having succeeded) yields \<open>null\<close>, not an exception,
  and is absent from the returned list; every route whose quote succeeds is in the
  returned list whatever happens to the other routes. A hop attempt itself never
  throws: a reverting contract read is absorbed into \<open>null\<close>.
\<close>

theorem failed_route_is_skipped:
  "\<exists>quotes.
     getQuotesForRoutes chainId provider routes amountIn toDecimals = Inr quotes
     \<and> (\<forall>route\<in>set routes. \<forall>pre hop post acc amt.
          hops route = pre @ hop # post
          \<and> quoteHops chainId provider pre amountIn [] = Inr (Some (acc, amt))
          \<and> getHopQuote chainId provider hop amt = Inr None
          \<longrightarrow> getQuoteForRoute chainId provider route amountIn toDecimals = Inr None
              \<and> route \<notin> rq_route ` set quotes)
     \<and> (\<forall>route\<in>set routes. \<forall>q.
          getQuoteForRoute chainId provider route amountIn toDecimals = Inr (Some q)
          \<longrightarrow> q \<in> set quotes)
     \<and> (\<forall>hop amt.
          (\<forall>a. \<exists>e. quoteExactInputSingle provider a (hop_tokenIn hop) (hop_tokenOut hop) amt
                       (hop_pool_fee hop) = Inl e)
          \<and> (\<forall>a. \<exists>e. getAmountsOut provider a amt [hop_tokenIn hop, hop_tokenOut hop] = Inl e)
          \<longrightarrow> getHopQuote chainId provider hop amt = Inr None)
     \<and> (\<forall>hop amt. \<exists>r. getHopQuote chainId provider hop amt = Inr r)"
proof -
  obtain quotes where q: "getQuotesForRoutes chainId provider routes amountIn toDecimals = Inr quotes"
    using getQuotesForRoutes_eq by blast
  note qs = getQuotesForRoutes_set [OF q]
  have failed: "getQuoteForRoute chainId provider route amountIn toDecimals = Inr None
              \<and> route \<notin> rq_route ` set quotes"
    if "hops route = pre @ hop # post"
      and "quoteHops chainId provider pre amountIn [] = Inr (Some (acc, amt))"
      and "getHopQuote chainId provider hop amt = Inr None"
    for route pre hop post acc amt
  proof -
    from that have "quoteHops chainId provider (hops route) amountIn [] = Inr None"
      by (simp add: quoteHops_append)
    then have none: "getQuoteForRoute chainId provider route amountIn toDecimals = Inr None"
      by (simp add: getQuoteForRoute_None)
    have "route \<notin> rq_route ` set quotes"
    proof
      assume "route \<in> rq_route ` set quotes"
      then obtain x where x: "x \<in> set quotes" "rq_route x = route" by auto
      with qs obtain r' where "getQuoteForRoute chainId provider r' amountIn toDecimals = Inr (Some x)"
        by auto
      moreover from this have "rq_route x = r'" by (auto simp: getQuoteForRoute_Some)
      ultimately show False using x none by simp
    qed
    with none show ?thesis by simp
  qed
  have c2: "\<forall>route\<in>set routes. \<forall>pre hop post acc amt.
          hops route = pre @ hop # post
          \<and> quoteHops chainId provider pre amountIn [] = Inr (Some (acc, amt))
          \<and> getHopQuote chainId provider hop amt = Inr None
          \<longrightarrow> getQuoteForRoute chainId provider route amountIn toDecimals = Inr None
              \<and> route \<notin> rq_route ` set quotes"
    using failed by blast
  have c3: "\<forall>route\<in>set routes. \<forall>q.
          getQuoteForRoute chainId provider route amountIn toDecimals = Inr (Some q)
          \<longrightarrow> q \<in> set quotes"
    unfolding qs by blast
  have c4: "\<forall>hop amt.
          (\<forall>a. \<exists>e. quoteExactInputSingle provider a (hop_tokenIn hop) (hop_tokenOut hop) amt
                       (hop_pool_fee hop) = Inl e)
          \<and> (\<forall>a. \<exists>e. getAmountsOut provider a amt [hop_tokenIn hop, hop_tokenOut hop] = Inl e)
          \<longrightarrow> getHopQuote chainId provider hop amt = Inr None"
    using getHopQuote_revert by blast
  have c5: "\<forall>hop amt. \<exists>r. getHopQuote chainId provider hop amt = Inr r"
    using getHopQuote_returns by blast
  show ?thesis
    by (intro exI [of _ quotes] conjI) (rule q c2 c3 c4 c5)+
qed

theorem failed_route_is_skipped_witness:
  "\<exists>quotes.
     getQuotesForRoutes 137 demo_provider [route_ab_bc, route_ac_3000, route_ac_500] 1000 0
       = Inr quotes
     \<and> getQuoteForRoute 137 demo_provider route_ac_3000 1000 0 = Inr None
     \<and> route_ac_3000 \<notin> rq_route ` set quotes
     \<and> quote_ac_500 \<in> set quotes
     \<and> quote_ab_bc \<in> set quotes"
proof -
  have pre: "hops route_ac_3000
               = [] @ hop_of (pool_of ''uniswap_v3'' ''0xa'' ''0xc'' (Some 3000)) # []
             \<and> quoteHops 137 demo_provider [] 1000 [] = Inr (Some ([], 1000))
             \<and> getHopQuote 137 demo_provider
                 (hop_of (pool_of ''uniswap_v3'' ''0xa'' ''0xc'' (Some 3000))) 1000 = Inr None"
    by (simp add: route_ac_3000_def createRoute_def demo_hop_quotes)
  from failed_route_is_skipped [of 137 demo_provider "[route_ab_bc, route_ac_3000, route_ac_500]" 1000 0]
  obtain quotes where
    q: "getQuotesForRoutes 137 demo_provider [route_ab_bc, route_ac_3000, route_ac_500] 1000 0
          = Inr quotes"
    and bad: "\<forall>route\<in>set [route_ab_bc, route_ac_3000, route_ac_500]. \<forall>pre hop post acc amt.
          hops route = pre @ hop # post
          \<and> quoteHops 137 demo_provider pre 1000 [] = Inr (Some (acc, amt))
          \<and> getHopQuote 137 demo_provider hop amt = Inr None
          \<longrightarrow> getQuoteForRoute 137 demo_provider route 1000 0 = Inr None
              \<and> route \<notin> rq_route ` set quotes"
    and good: "\<forall>route\<in>set [route_ab_bc, route_ac_3000, route_ac_500]. \<forall>q.
          getQuoteForRoute 137 demo_provider route 1000 0 = Inr (Some q) \<longrightarrow> q \<in> set quotes"
    by blast
  have mem: "route_ac_3000 \<in> set [route_ab_bc, route_ac_3000, route_ac_500]" by simp
  from bad [rule_format, OF mem pre]
  have "getQuoteForRoute 137 demo_provider route_ac_3000 1000 0 = Inr None
              \<and> route_ac_3000 \<notin> rq_route ` set quotes" .
  moreover from good demo_route_quotes have "quote_ac_500 \<in> set quotes" "quote_ab_bc \<in> set quotes"
    by simp_all
  ultimately show ?thesis using q by blast
qed



section \<open>Properties of the split optimizers\<close>

lemma math_round_of_int: "math_round (of_int k) = k"
  unfolding math_round_def by linarith

lemma round2_mono: "x \<le> y \<Longrightarrow> round2 x \<le> round2 y"
  unfolding round2_def math_round_def
  by (simp add: divide_right_mono floor_mono)

lemma round2_grid: "round2 (of_int k / 100) = of_int k / 100"
  by (simp add: round2_def math_round_of_int)

lemma round2_upper: "round2 x \<le> x + 1 / 200"
proof -
  have "of_int \<lfloor>x * 100 + 1 / 2\<rfloor> \<le> x * 100 + 1 / 2" by (rule of_int_floor_le)
  then show ?thesis unfolding round2_def math_round_def by (simp add: field_simps)
qed

lemma round2_is_grid: "\<exists>k. round2 x = of_int k / 100"
  unfolding round2_def by blast

lemma sum_round2_grid: "\<exists>k. sum_list (map (\<lambda>p. round2 (f p)) ps) = of_int k / 100"
proof (induction ps)
  case Nil
  show ?case by simp
next
  case (Cons p ps)
  then obtain k where k: "sum_list (map (\<lambda>p. round2 (f p)) ps) = of_int k / 100" by blast
  obtain j where j: "round2 (f p) = of_int j / 100" using round2_is_grid by blast
  have "sum_list (map (\<lambda>p. round2 (f p)) (p # ps)) = of_int (j + k) / 100"
    by (simp add: k j add_divide_distrib)
  then show ?case by blast
qed

lemma sum_adjusted: "ps \<noteq> [] \<Longrightarrow> sum_list (adjusted ps) = 100"
  by (cases ps) (auto simp: adjusted_def Let_def)

lemma adjusted_grid: "r \<in> set (adjusted ps) \<Longrightarrow> \<exists>k. r = of_int k / 100"
proof -
  assume r: "r \<in> set (adjusted ps)"
  let ?rs = "map (\<lambda>p. round2 (p / sum_list ps * 100)) ps"
  have each: "\<exists>k. x = of_int k / 100" if "x \<in> set ?rs" for x
    using that round2_is_grid by auto
  obtain ks where ks: "sum_list ?rs = of_int ks / 100" using sum_round2_grid [of "\<lambda>p. p / sum_list ps * 100" ps] by blast
  show ?thesis
  proof (cases "sum_list ?rs \<noteq> 100 \<and> ?rs \<noteq> []")
    case False
    with r each show ?thesis by (auto simp: adjusted_def Let_def)
  next
    case True
    with r have "r = hd ?rs + (100 - sum_list ?rs) \<or> r \<in> set (tl ?rs)"
      by (auto simp: adjusted_def Let_def)
    then show ?thesis
    proof
      assume "r \<in> set (tl ?rs)"
      with True have "r \<in> set ?rs" by (meson list.set_sel(2))
      with each show ?thesis by blast
    next
      assume eq: "r = hd ?rs + (100 - sum_list ?rs)"
      from True have "hd ?rs \<in> set ?rs" by (intro hd_in_set) simp
      with each obtain kh where kh: "hd ?rs = of_int kh / 100" by blast
      have "r = of_int (kh + 10000 - ks) / 100"
        unfolding eq kh ks by (simp add: field_simps)
      then show ?thesis by blast
    qed
  qed
qed

lemma sum_list_share: "sum_list (map (\<lambda>p. p / c * 100) ps) = sum_list ps / c * (100::rat)"
  by (induction ps) (simp_all add: add_divide_distrib distrib_right)

lemma adjusted_lower:
  assumes low: "\<forall>p\<in>set ps. m \<le> p"
    and m: "0 < m" "m \<le> 33" "m = of_int km / 100"
    and total: "sum_list ps \<le> 100"
    and len: "length ps \<le> 3"
    and first: "\<forall>p\<in>set ps. p \<le> hd ps"
  shows "\<forall>r\<in>set (adjusted ps). m \<le> r"
proof (cases ps)
  case Nil
  then show ?thesis by (simp add: adjusted_def)
next
  case (Cons a rest)
  define P where "P = sum_list ps"
  define q where "q = (\<lambda>p. p / P * 100)"
  from low m Cons have apos: "0 < a" by auto
  from low m have nonneg: "\<forall>p\<in>set ps. 0 \<le> p" by force
  then have "0 \<le> sum_list rest" using Cons by (simp add: sum_list_nonneg)
  with apos Cons have Ppos: "0 < P" unfolding P_def by simp
  have qge: "p \<le> q p" if "p \<in> set ps" for p
  proof -
    from that nonneg have "0 \<le> p" by simp
    moreover from total have "P \<le> 100" unfolding P_def .
    ultimately have "p * P \<le> p * 100" by (simp add: mult_left_mono)
    with Ppos show ?thesis unfolding q_def by (simp add: field_simps)
  qed
  have rge: "m \<le> round2 (q p)" if "p \<in> set ps" for p
  proof -
    from that low qge have "m \<le> q p" by force
    then have "round2 m \<le> round2 (q p)" by (rule round2_mono)
    then show ?thesis unfolding m(3) round2_grid .
  qed
  have qsum: "sum_list (map q ps) = 100"
    using Ppos unfolding q_def sum_list_share by (simp add: P_def)
  have qmono: "q p \<le> q a" if "p \<in> set ps" for p
  proof -
    from that first Cons have "p \<le> a" by auto
    with Ppos show ?thesis unfolding q_def by (simp add: divide_right_mono)
  qed
  let ?rs = "map (\<lambda>p. round2 (p / sum_list ps * 100)) ps"
  have rs: "?rs = map (\<lambda>p. round2 (q p)) ps" unfolding q_def P_def ..
  show ?thesis
  proof (cases "sum_list ?rs \<noteq> 100")
    case False
    then have "adjusted ps = ?rs" by (simp add: adjusted_def Let_def)
    with rge show ?thesis unfolding rs by auto
  next
    case True
    with Cons have adj: "adjusted ps
        = (round2 (q a) + (100 - sum_list (map (\<lambda>p. round2 (q p)) ps)))
            # map (\<lambda>p. round2 (q p)) rest"
      unfolding adjusted_def Let_def rs by simp
    have tail: "\<forall>r\<in>set (map (\<lambda>p. round2 (q p)) rest). m \<le> r"
      using rge Cons by auto
    have head: "m \<le> round2 (q a) + (100 - sum_list (map (\<lambda>p. round2 (q p)) ps))"
    proof (cases rest)
      case Nil
      with Cons m show ?thesis by simp
    next
      case c1: (Cons b rest1)
      show ?thesis
      proof (cases rest1)
        case Nil
        from qsum Cons c1 Nil have "q a + q b = 100" by simp
        moreover from qmono [of b] Cons c1 have "q b \<le> q a" by simp
        moreover note round2_upper [of "q b"]
        ultimately show ?thesis using Cons c1 Nil m by simp
      next
        case c2: (Cons c rest2)
        with len Cons c1 have r2: "rest2 = []" by simp
        from qsum Cons c1 c2 r2 have "q a + q b + q c = 100" by simp
        moreover from qmono [of b] qmono [of c] Cons c1 c2 have "q b \<le> q a" "q c \<le> q a" by simp_all
        moreover note round2_upper [of "q b"] round2_upper [of "q c"]
        ultimately show ?thesis using Cons c1 c2 r2 m by simp
      qed
    qed
    from head tail show ?thesis unfolding adj by simp
  qed
qed

lemma filter_zip_map:
  "filter (\<lambda>(q, p). P p) (zip xs (map g xs)) = map (\<lambda>q. (q, g q)) (filter (\<lambda>q. P (g q)) xs)"
  by (induction xs) auto

lemma normalize_shares:
  fixes outs :: "rat list"
  assumes "\<forall>x\<in>set outs. 0 \<le> x"
  shows "normalizePercentages (map (\<lambda>output. output / sum_list outs * 100) outs)
           = map (\<lambda>output. output / sum_list outs * 100) outs"
proof (cases "sum_list outs = 0")
  case True
  then show ?thesis by (simp add: normalizePercentages_def Let_def)
next
  case False
  then have "sum_list (map (\<lambda>output. output / sum_list outs * 100) outs) = 100"
    unfolding sum_list_share by simp
  then show ?thesis by (simp add: normalizePercentages_def Let_def)
qed

lemma adjusted_single: "p \<noteq> 0 \<Longrightarrow> adjusted [p] = [100]"
proof -
  assume "p \<noteq> 0"
  moreover have "round2 100 = 100" using round2_grid [of 10000] by simp
  ultimately show ?thesis by (simp add: adjusted_def Let_def)
qed

lemma round2_shift:
  assumes "p = of_int k / 100" and "s = of_int j / 100"
  shows "round2 (p + (100 - s)) = p + (100 - s)"
    and "of_int (math_round ((100 - s) * 100)) / 100 = 100 - s"
proof -
  have "p + (100 - s) = of_int (k + 10000 - j) / 100"
    unfolding assms by (simp add: field_simps)
  then show "round2 (p + (100 - s)) = p + (100 - s)"
    using round2_grid by metis
  have "(100 - s) * 100 = of_int (10000 - j)" unfolding assms by simp
  then have "math_round ((100 - s) * 100) = 10000 - j"
    by (simp only: math_round_of_int)
  then show "of_int (math_round ((100 - s) * 100)) / 100 = 100 - s"
    unfolding assms by simp
qed

lemma zip_adjusted:
  fixes vs :: "('q \<times> rat) list"
  defines "rs \<equiv> map (\<lambda>p. round2 (p / sum_list (map snd vs) * 100)) (map snd vs)"
  shows "zip (map fst vs) (adjusted (map snd vs)) =
           (if sum_list rs \<noteq> 100 \<and> vs \<noteq> []
            then (fst (hd vs), hd rs + (100 - sum_list rs)) # zip (map fst (tl vs)) (tl rs)
            else zip (map fst vs) rs)"
  unfolding rs_def by (cases vs) (auto simp: adjusted_def Let_def)

lemma rounded_zip:
  "map (\<lambda>(q, p). (q, round2 p)) (map (\<lambda>(q, p). (q, p / c * 100)) vs)
     = zip (map fst vs) (map (\<lambda>p. round2 (p / c * 100)) (map snd vs))"
  by (induction vs) auto

lemma venue_finish:
  fixes vs :: "('q \<times> rat) list"
  shows "(let totalPercentage = sum_list (map snd vs);
               renormalized = map (\<lambda>(q, p). (q, p / totalPercentage * 100)) vs;
               rounded = map (\<lambda>(q, p). (q, round2 p)) renormalized;
               sum = sum_list (map snd rounded)
           in if sum \<noteq> 100 \<and> length rounded > 0
              then (case rounded of
                      [] \<Rightarrow> []
                    | (q, p) # rest \<Rightarrow> (q, round2 (p + (100 - sum))) # rest)
              else rounded)
         = zip (map fst vs) (adjusted (map snd vs))"
proof -
  define rs where "rs = map (\<lambda>p. round2 (p / sum_list (map snd vs) * 100)) (map snd vs)"
  have rounded: "map (\<lambda>(q, p). (q, round2 p))
                   (map (\<lambda>(q, p). (q, p / sum_list (map snd vs) * 100)) vs)
                   = zip (map fst vs) rs"
    unfolding rs_def by (rule rounded_zip)
  have sum: "sum_list (map snd (zip (map fst vs) rs)) = sum_list rs"
    unfolding rs_def by (simp add: map_snd_zip)
  obtain j where j: "sum_list rs = of_int j / 100"
    unfolding rs_def map_map comp_def
    using sum_round2_grid [of "\<lambda>p. snd p / sum_list (map snd vs) * 100" vs] by auto
  have lhs: "(let totalPercentage = sum_list (map snd vs);
               renormalized = map (\<lambda>(q, p). (q, p / totalPercentage * 100)) vs;
               rounded = map (\<lambda>(q, p). (q, round2 p)) renormalized;
               sum = sum_list (map snd rounded)
           in if sum \<noteq> 100 \<and> length rounded > 0
              then (case rounded of
                      [] \<Rightarrow> []
                    | (q, p) # rest \<Rightarrow> (q, round2 (p + (100 - sum))) # rest)
              else rounded)
          = (if sum_list rs \<noteq> 100 \<and> length (zip (map fst vs) rs) > 0
              then (case zip (map fst vs) rs of
                      [] \<Rightarrow> []
                    | (q, p) # rest \<Rightarrow> (q, round2 (p + (100 - sum_list rs))) # rest)
              else zip (map fst vs) rs)"
    by (simp only: Let_def rounded sum)
  show ?thesis
  proof (cases vs)
    case Nil
    then show ?thesis by (simp add: adjusted_def)
  next
    case (Cons v rest)
    obtain q0 p0 where v: "v = (q0, p0)" by (cases v)
    obtain r0 rs' where rs: "rs = r0 # rs'" unfolding rs_def Cons by simp
    have "r0 = round2 (p0 / sum_list (map snd vs) * 100)" using rs unfolding rs_def Cons v by simp
    then obtain k where k: "r0 = of_int k / 100" using round2_is_grid by blast
    from round2_shift(1) [OF k j]
    have shift: "round2 (r0 + (100 - sum_list rs)) = r0 + (100 - sum_list rs)" .
    have z: "zip (map fst vs) rs = (q0, r0) # zip (map fst rest) rs'"
      unfolding Cons v rs by simp
    show ?thesis
      unfolding lhs zip_adjusted rs_def [symmetric]
      unfolding z using shift by (simp add: Cons v rs)
  qed
qed


lemma route_finish: "routeNormalize vs = zip (map fst vs) (adjusted (map snd vs))"
proof -
  define rs where "rs = map (\<lambda>p. round2 (p / sum_list (map snd vs) * 100)) (map snd vs)"
  have r2: "of_int (math_round (p / c * 10000)) / 100 = round2 (p / c * 100)" for p c :: rat
  proof -
    have "p / c * 10000 = p / c * 100 * 100" by simp
    then show ?thesis unfolding round2_def by (simp only:)
  qed
  have normalized: "map (\<lambda>(q, p). (q, of_int (math_round (p / sum_list (map snd vs) * 10000)) / 100)) vs
                   = zip (map fst vs) rs"
  proof -
    have "map (\<lambda>(q, p). (q, round2 (p / c * 100))) vs
            = zip (map fst vs) (map (\<lambda>p. round2 (p / c * 100)) (map snd vs))" for c
      by (induction vs) auto
    then show ?thesis unfolding rs_def r2 .
  qed
  have sum: "sum_list (map snd (zip (map fst vs) rs)) = sum_list rs"
    unfolding rs_def by (simp add: map_snd_zip)
  obtain j where j: "sum_list rs = of_int j / 100"
    unfolding rs_def map_map comp_def
    using sum_round2_grid [of "\<lambda>p. snd p / sum_list (map snd vs) * 100" vs] by auto
  have lhs: "routeNormalize vs
          = (if sum_list rs \<noteq> 100 \<and> length (zip (map fst vs) rs) > 0
              then (case zip (map fst vs) rs of
                      [] \<Rightarrow> []
                    | (q, p) # rest \<Rightarrow>
                        (q, p + of_int (math_round ((100 - sum_list rs) * 100)) / 100) # rest)
              else zip (map fst vs) rs)"
    unfolding routeNormalize_def by (simp only: Let_def normalized sum)
  show ?thesis
  proof (cases vs)
    case Nil
    then show ?thesis by (simp add: adjusted_def routeNormalize_def)
  next
    case (Cons v rest)
    obtain q0 p0 where v: "v = (q0, p0)" by (cases v)
    obtain r0 rs' where rs: "rs = r0 # rs'" unfolding rs_def Cons by simp
    have k: "(0::rat) = of_int 0 / 100" by simp
    from round2_shift(2) [OF k j]
    have shift: "of_int (math_round ((100 - sum_list rs) * 100)) / 100 = 100 - sum_list rs" .
    have z: "zip (map fst vs) rs = (q0, r0) # zip (map fst rest) rs'"
      unfolding Cons v rs by simp
    show ?thesis
      unfolding lhs zip_adjusted rs_def [symmetric]
      unfolding z shift by (simp add: Cons v rs)
  qed
qed

lemma shares_eq:
  "map (\<lambda>output. output / sum_list (map (\<lambda>q. of_nat (out q)) topQuotes) * 100)
       (map (\<lambda>q. of_nat (out q)) topQuotes)
     = map (share out topQuotes) topQuotes"
  by (simp add: share_def)

lemma calculateDynamicSplit_legs:
  "calculateDynamicSplit sortedQuotes amountIn fromDecimals
     = split_legs dq_amountOut MIN_SPLIT_PERCENTAGE sortedQuotes"
proof -
  define topQuotes where "topQuotes = take MAX_SPLITS sortedQuotes"
  define outs :: "rat list" where "outs = map (\<lambda>q. of_nat (dq_amountOut q)) topQuotes"
  define kept where
    "kept = filter (\<lambda>q. MIN_SPLIT_PERCENTAGE \<le> share dq_amountOut topQuotes q) topQuotes"
  define vs where "vs = map (\<lambda>q. (q, share dq_amountOut topQuotes q)) kept"
  have nn: "\<forall>x\<in>set outs. 0 \<le> x" unfolding outs_def by auto
  have pcts: "normalizePercentages (map (\<lambda>output. output / sum_list outs * 100) outs)
                = map (share dq_amountOut topQuotes) topQuotes"
    unfolding normalize_shares [OF nn] unfolding outs_def by (rule shares_eq)
  have valid: "filter (\<lambda>(q, p). p \<ge> MIN_SPLIT_PERCENTAGE)
                 (zip topQuotes (map (share dq_amountOut topQuotes) topQuotes)) = vs"
    unfolding vs_def kept_def by (rule filter_zip_map)
  have fst: "map fst vs = kept" and snd: "map snd vs = map (share dq_amountOut topQuotes) kept"
    unfolding vs_def by (simp_all add: comp_def)
  have unfold: "calculateDynamicSplit sortedQuotes amountIn fromDecimals =
     (if length vs = 1 then map (\<lambda>(q, p). (q, 100)) vs
      else zip (map fst vs) (adjusted (map snd vs)))"
    unfolding venue_finish [symmetric]
    unfolding calculateDynamicSplit_def
    by (simp only: Let_def topQuotes_def [symmetric] outs_def [symmetric] pcts valid)
  have one: "map (\<lambda>(q, p). (q, 100)) vs = zip (map fst vs) (adjusted (map snd vs))"
    if "length vs = 1"
  proof -
    from that obtain q p where qp: "vs = [(q, p)]" by (cases vs) auto
    then have "(q, p) \<in> set (filter (\<lambda>(q, p). p \<ge> MIN_SPLIT_PERCENTAGE)
                 (zip topQuotes (map (share dq_amountOut topQuotes) topQuotes)))"
      unfolding valid by simp
    then have "p \<noteq> 0" by (auto simp: MIN_SPLIT_PERCENTAGE_def)
    then show ?thesis unfolding qp by (simp add: adjusted_single)
  qed
  show ?thesis
    unfolding unfold split_legs_def Let_def
    using one by (simp add: fst snd kept_def topQuotes_def MAX_SPLITS_def)
qed

lemma routeValidSplits_eq:
  "routeValidSplits sortedQuotes =
     (let topQuotes = take 3 sortedQuotes
      in map (\<lambda>q. (q, share rq_amountOut topQuotes q))
           (filter (\<lambda>q. MIN_ROUTE_PERCENTAGE \<le> share rq_amountOut topQuotes q) topQuotes))"
  unfolding routeValidSplits_def Let_def shares_eq MAX_ROUTE_SPLITS_def
  by (rule filter_zip_map)

lemma routeNormalize_legs:
  "routeNormalize (routeValidSplits sortedQuotes)
     = split_legs rq_amountOut MIN_ROUTE_PERCENTAGE sortedQuotes"
  unfolding route_finish routeValidSplits_eq split_legs_def Let_def
  by (simp add: comp_def)

lemma sum_list_filter_le:
  fixes f :: "'a \<Rightarrow> rat"
  assumes "\<forall>x\<in>set xs. 0 \<le> f x"
  shows "sum_list (map f (filter P xs)) \<le> sum_list (map f xs)"
  using assms by (induction xs) (auto intro: add_increasing)

lemma outputs_nonneg: "(0::rat) \<le> sum_list (map (\<lambda>q. of_nat (out q)) topQuotes)"
  by (rule sum_list_nonneg) auto

lemma share_nonneg: "0 \<le> share out topQuotes q"
  unfolding share_def using outputs_nonneg [of out topQuotes] by simp

lemma share_mono: "out q \<le> out q' \<Longrightarrow> share out topQuotes q \<le> share out topQuotes q'"
  unfolding share_def using outputs_nonneg [of out topQuotes]
  by (intro mult_right_mono divide_right_mono) simp_all

lemma share_total: "sum_list (map (share out topQuotes) topQuotes) \<le> 100"
proof -
  have "sum_list (map (share out topQuotes) topQuotes)
          = sum_list (map (\<lambda>q. of_nat (out q)) topQuotes)
              / sum_list (map (\<lambda>q. of_nat (out q)) topQuotes) * (100::rat)"
    unfolding share_def using sum_list_share [of _ "map (\<lambda>q. of_nat (out q)) topQuotes"]
    by (simp add: comp_def)
  then show ?thesis by simp
qed

lemma split_legs_props:
  assumes sorted: "sorted_wrt (\<lambda>a b. out b \<le> out a) sortedQuotes"
    and m: "0 < m" "m \<le> 33" "m = of_int km / 100"
    and legs: "legs = split_legs out m sortedQuotes"
  shows "legs \<noteq> [] \<longrightarrow> sum_list (map snd legs) = 100"
    and "\<forall>leg\<in>set legs. m \<le> snd leg"
    and "\<forall>leg\<in>set legs. fst leg \<in> set sortedQuotes"
    and "\<forall>leg\<in>set legs. \<exists>k. snd leg = of_int k / 100"
    and "length legs \<le> 3"
    and "length legs = length (filter (\<lambda>q. m \<le> share out (take 3 sortedQuotes) q)
                                 (take 3 sortedQuotes))"
proof -
  define topQuotes where "topQuotes = take 3 sortedQuotes"
  define kept where "kept = filter (\<lambda>q. m \<le> share out topQuotes q) topQuotes"
  define ps where "ps = map (share out topQuotes) kept"
  have legs_eq: "legs = zip kept (adjusted ps)"
    unfolding legs split_legs_def Let_def ps_def kept_def topQuotes_def ..
  have len_adj: "length (adjusted ps) = length ps"
    by (cases ps) (auto simp: adjusted_def Let_def)
  then have len: "length (adjusted ps) = length kept" unfolding ps_def by simp
  then have fst: "map fst legs = kept" and snd: "map snd legs = adjusted ps"
    unfolding legs_eq by simp_all
  have low: "\<forall>p\<in>set ps. m \<le> p" unfolding ps_def kept_def by auto
  have "sum_list ps \<le> sum_list (map (share out topQuotes) topQuotes)"
    unfolding ps_def kept_def by (rule sum_list_filter_le) (simp add: share_nonneg)
  then have total: "sum_list ps \<le> 100" using share_total by (rule order_trans)
  have len3: "length ps \<le> 3"
  proof -
    have "length kept \<le> length topQuotes" unfolding kept_def by simp
    also have "\<dots> \<le> 3" unfolding topQuotes_def by simp
    finally show ?thesis unfolding ps_def by simp
  qed
  have srt_top: "sorted_wrt (\<lambda>a b. out b \<le> out a) topQuotes"
    unfolding topQuotes_def using sorted by (rule sorted_wrt_take)
  then have srt_kept: "sorted_wrt (\<lambda>a b. out b \<le> out a) kept"
    unfolding kept_def by (rule sorted_wrt_filter)
  have first: "\<forall>p\<in>set ps. p \<le> hd ps"
  proof (cases kept)
    case Nil
    then show ?thesis unfolding ps_def by simp
  next
    case (Cons k0 rest)
    with srt_kept have "\<forall>q\<in>set kept. out q \<le> out k0" by auto
    then show ?thesis unfolding ps_def Cons by (auto intro: share_mono)
  qed
  show "legs \<noteq> [] \<longrightarrow> sum_list (map snd legs) = 100"
  proof
    assume "legs \<noteq> []"
    then have "ps \<noteq> []" unfolding legs_eq ps_def by auto
    then show "sum_list (map snd legs) = 100" unfolding snd by (rule sum_adjusted)
  qed
  from adjusted_lower [OF low m total len3 first]
  have "\<forall>r\<in>set (map snd legs). m \<le> r" unfolding snd .
  then show "\<forall>leg\<in>set legs. m \<le> snd leg" by simp
  show "\<forall>leg\<in>set legs. fst leg \<in> set sortedQuotes"
  proof
    fix leg assume "leg \<in> set legs"
    then have "fst leg \<in> set (map fst legs)" by simp
    then have "fst leg \<in> set kept" unfolding fst .
    then have "fst leg \<in> set topQuotes" unfolding kept_def by simp
    then show "fst leg \<in> set sortedQuotes" unfolding topQuotes_def by (rule in_set_takeD)
  qed
  show "\<forall>leg\<in>set legs. \<exists>k. snd leg = of_int k / 100"
  proof
    fix leg assume "leg \<in> set legs"
    then have "snd leg \<in> set (map snd legs)" by simp
    then have "snd leg \<in> set (adjusted ps)" unfolding snd .
    then show "\<exists>k. snd leg = of_int k / 100" by (rule adjusted_grid)
  qed
  show "length legs \<le> 3" unfolding legs_eq using len len3 by (simp add: ps_def)
  show "length legs = length (filter (\<lambda>q. m \<le> share out (take 3 sortedQuotes) q)
                                 (take 3 sortedQuotes))"
    unfolding legs_eq using len by (simp add: kept_def topQuotes_def)
qed

lemma sum_div_le:
  fixes xs :: "int list"
  assumes "0 < n"
  shows "sum_list (map (\<lambda>x. x div n) xs) \<le> sum_list xs div n"
proof (induction xs)
  case Nil
  then show ?case by simp
next
  case (Cons x xs)
  have "0 \<le> (x mod n + sum_list xs mod n) div n"
    using assms by (simp add: pos_imp_zdiv_nonneg_iff)
  then have "x div n + sum_list xs div n \<le> (x + sum_list xs) div n"
    unfolding div_add1_eq [of x "sum_list xs" n] by linarith
  with Cons show ?case by simp
qed

lemma sdiv_nonneg: "0 \<le> a \<Longrightarrow> 0 < b \<Longrightarrow> a sdiv b = a div (b::int)"
  by (cases "a = 0") (simp_all add: signed_divide_int_def)

lemma weighted_le:
  fixes xs :: "(int \<times> int) list"
  assumes "\<forall>x\<in>set xs. 0 \<le> snd x \<and> fst x \<le> A"
  shows "sum_list (map (\<lambda>x. fst x * snd x) xs) \<le> A * sum_list (map snd xs)"
  using assms
proof (induction xs)
  case Nil
  then show ?case by simp
next
  case (Cons x xs)
  then have "fst x * snd x \<le> A * snd x" by (simp add: mult_right_mono)
  with Cons show ?case by (simp add: distrib_left)
qed

lemma legs_output_le:
  assumes sorted: "sorted_wrt (\<lambda>a b. out b \<le> out a) sortedQuotes"
    and ne: "sortedQuotes \<noteq> []"
    and m: "0 < m" "m \<le> 33" "m = of_int km / 100"
  shows "sum_list (map (\<lambda>leg. (int (out (fst leg)) * math_round (snd leg * 100)) sdiv 10000)
                     (split_legs out m sortedQuotes))
           \<le> int (out (hd sortedQuotes))"
proof -
  define legs where "legs = split_legs out m sortedQuotes"
  define A where "A = int (out (hd sortedQuotes))"
  define w where "w = (\<lambda>leg :: 'a \<times> rat. math_round (snd leg * 100))"
  note props = split_legs_props [OF sorted m legs_def]
  have best: "int (out q) \<le> A" if "q \<in> set sortedQuotes" for q
  proof -
    from ne obtain b rest where sq: "sortedQuotes = b # rest" by (cases sortedQuotes) auto
    with sorted that have "out q \<le> out b" by auto
    then show ?thesis unfolding A_def sq by simp
  qed
  have wrat: "of_int (w leg) = snd leg * 100" and wpos: "0 \<le> w leg" if "leg \<in> set legs" for leg
  proof -
    from props(4) that obtain k where k: "snd leg = of_int k / 100" by blast
    then have wk: "w leg = k" unfolding w_def by (simp add: math_round_of_int)
    then show "of_int (w leg) = snd leg * 100" using k by simp
    from props(2) that m have "0 \<le> snd leg" by force
    with k have "(0::rat) \<le> of_int k" by simp
    then show "0 \<le> w leg" unfolding wk by simp
  qed
  have "(of_int (sum_list (map w legs)) :: rat) = sum_list (map (\<lambda>leg. snd leg * 100) legs)"
    using wrat by (induction legs) auto
  also have "\<dots> = sum_list (map snd legs) * 100"
    by (simp add: sum_list_mult_const)
  finally have wsum_rat: "(of_int (sum_list (map w legs)) :: rat) = sum_list (map snd legs) * 100" .
  have wsum: "sum_list (map w legs) \<le> 10000"
  proof (cases "legs = []")
    case True
    then show ?thesis by simp
  next
    case False
    with props(1) wsum_rat have "(of_int (sum_list (map w legs)) :: rat) = of_int 10000" by simp
    then show ?thesis by (simp only: of_int_eq_iff)
  qed
  have Apos: "0 \<le> A" unfolding A_def by simp
  have "sum_list (map (\<lambda>leg. (int (out (fst leg)) * w leg) sdiv 10000) legs)
          = sum_list (map (\<lambda>x. x div 10000) (map (\<lambda>leg. int (out (fst leg)) * w leg) legs))"
    using wpos by (induction legs) (auto simp: sdiv_nonneg)
  also have "\<dots> \<le> sum_list (map (\<lambda>leg. int (out (fst leg)) * w leg) legs) div 10000"
    by (rule sum_div_le) simp
  also have "\<dots> \<le> (A * sum_list (map w legs)) div 10000"
  proof (rule zdiv_mono1)
    have "\<forall>x\<in>set (map (\<lambda>leg. (int (out (fst leg)), w leg)) legs). 0 \<le> snd x \<and> fst x \<le> A"
      using wpos best props(3) by auto
    from weighted_le [OF this]
    show "sum_list (map (\<lambda>leg. int (out (fst leg)) * w leg) legs) \<le> A * sum_list (map w legs)"
      by (simp add: comp_def)
  qed simp
  also have "\<dots> \<le> (A * 10000) div 10000"
    by (rule zdiv_mono1) (simp_all add: mult_left_mono wsum Apos)
  also have "\<dots> = A" by simp
  finally show ?thesis unfolding legs_def w_def A_def .
qed

lemma formatUnits_mono: "a \<le> b \<Longrightarrow> formatUnits a d \<le> formatUnits b d"
  unfolding formatUnits_def by (simp add: divide_right_mono)

lemma sorted_dex_quotes:
  "sorted_wrt (\<lambda>a b. dq_amountOut b \<le> dq_amountOut a) (js_sort cmp_dex_quotes quotes)"
  by (rule sorted_js_sort) (simp add: cmp_dex_quotes_def)

lemma sorted_route_outputs:
  "sorted_wrt (\<lambda>a b. rq_amountOut b \<le> rq_amountOut a) (js_sort cmp_route_outputs quotes)"
  by (rule sorted_js_sort) (simp add: cmp_route_outputs_def)

lemma min_split_grid: "MIN_SPLIT_PERCENTAGE = of_int 100 / 100"
  and min_route_grid: "MIN_ROUTE_PERCENTAGE = of_int 500 / 100"
  by (simp_all add: MIN_SPLIT_PERCENTAGE_def MIN_ROUTE_PERCENTAGE_def)

lemma splitAmountOut_eq:
  "splitAmountOut = (\<lambda>leg. (int (dq_amountOut (fst leg)) * math_round (snd leg * 100)) sdiv 10000)"
  by (rule ext) (simp add: splitAmountOut_def weight_def)

lemma routeSplitAmountOut_eq:
  "routeSplitAmountOut
     = (\<lambda>leg. (int (rq_amountOut (fst leg)) * math_round (snd leg * 100)) sdiv 10000)"
  by (rule ext) (simp add: routeSplitAmountOut_def mult.commute)

lemma min_split_bounds: "0 < MIN_SPLIT_PERCENTAGE" "MIN_SPLIT_PERCENTAGE \<le> 33"
  and min_route_bounds: "0 < MIN_ROUTE_PERCENTAGE" "MIN_ROUTE_PERCENTAGE \<le> 33"
  by (simp_all add: MIN_SPLIT_PERCENTAGE_def MIN_ROUTE_PERCENTAGE_def)

lemma venue_split_not_better:
  assumes "quotes \<noteq> []"
  shows "\<not> totalOutput (createSplitRoute
              (calculateDynamicSplit (js_sort cmp_dex_quotes quotes) amountIn fromDecimals)
              amountIn fromDecimals toDecimals fromToken toToken)
           > totalOutput (createSingleRoute (hd (js_sort cmp_dex_quotes quotes))
              amountIn fromDecimals toDecimals fromToken toToken) * splitThreshold"
proof -
  let ?sq = "js_sort cmp_dex_quotes quotes"
  from assms have ne: "?sq \<noteq> []" using length_js_sort [of cmp_dex_quotes quotes] by auto
  have "sum_list (map splitAmountOut (split_legs dq_amountOut MIN_SPLIT_PERCENTAGE ?sq))
          \<le> int (dq_amountOut (hd ?sq))"
    unfolding splitAmountOut_eq
    by (rule legs_output_le [OF sorted_dex_quotes ne min_split_bounds min_split_grid])
  then have "formatUnits (sum_list (map splitAmountOut
                (split_legs dq_amountOut MIN_SPLIT_PERCENTAGE ?sq))) toDecimals
          \<le> formatUnits (int (dq_amountOut (hd ?sq))) toDecimals"
    by (rule formatUnits_mono)
  moreover have "0 \<le> formatUnits (int (dq_amountOut (hd ?sq))) toDecimals"
    by (simp add: formatUnits_def)
  ultimately show ?thesis
    by (simp add: createSplitRoute_def createSingleRoute_def calculateDynamicSplit_legs
          splitThreshold_def)
qed

lemma route_split_not_better:
  assumes "quotes \<noteq> []"
    and "\<forall>q\<in>set quotes. rq_amountOutFormatted q = formatUnits (int (rq_amountOut q)) toDecimals"
  shows "\<not> formatUnits (sum_list (map routeSplitAmountOut
              (routeNormalize (routeValidSplits (js_sort cmp_route_outputs quotes))))) toDecimals
           > rq_amountOutFormatted (hd (js_sort cmp_route_outputs quotes)) * splitThreshold"
proof -
  let ?sq = "js_sort cmp_route_outputs quotes"
  from assms have ne: "?sq \<noteq> []" using length_js_sort [of cmp_route_outputs quotes] by auto
  then have "hd ?sq \<in> set quotes" using set_js_sort [of cmp_route_outputs quotes] hd_in_set by blast
  with assms have fmt: "rq_amountOutFormatted (hd ?sq)
                          = formatUnits (int (rq_amountOut (hd ?sq))) toDecimals" by simp
  have "sum_list (map routeSplitAmountOut (split_legs rq_amountOut MIN_ROUTE_PERCENTAGE ?sq))
          \<le> int (rq_amountOut (hd ?sq))"
    unfolding routeSplitAmountOut_eq
    by (rule legs_output_le [OF sorted_route_outputs ne min_route_bounds min_route_grid])
  then have "formatUnits (sum_list (map routeSplitAmountOut
                (split_legs rq_amountOut MIN_ROUTE_PERCENTAGE ?sq))) toDecimals
          \<le> formatUnits (int (rq_amountOut (hd ?sq))) toDecimals"
    by (rule formatUnits_mono)
  moreover have "0 \<le> formatUnits (int (rq_amountOut (hd ?sq))) toDecimals"
    by (simp add: formatUnits_def)
  ultimately show ?thesis
    by (simp add: routeNormalize_legs fmt splitThreshold_def)
qed

lemma hd_js_sort_best:
  assumes "\<And>a b. cmp a b \<le> 0 \<longleftrightarrow> key b \<le> (key a :: nat)"
  shows "\<forall>q\<in>set quotes. key q \<le> key (hd (js_sort cmp quotes))"
proof (cases "js_sort cmp quotes")
  case Nil
  then show ?thesis using length_js_sort [of cmp quotes] by simp
next
  case (Cons b rest)
  from sorted_js_sort [of cmp key quotes, OF assms] Cons
  have "\<forall>q\<in>set (b # rest). key q \<le> key b" by auto
  then show ?thesis using set_js_sort [of cmp quotes] Cons by auto
qed

text \<open>
  Claim C1: for a non-empty list of quotes and an input amount of at least 100 units,
  each optimizer returns its split plan if the split plan's total output is strictly
  greater than 1.001 times the output of the single best quote, and the single-route
  plan on the best quote otherwise. The route quotes are taken as the quoting service
  makes them: the formatted output is the output amount at the decimals of the call.
\<close>

theorem split_gate:
  "(quotes \<noteq> [] \<and> 100 \<le> formatUnits amountIn fromDecimals \<longrightarrow>
      (let sortedQuotes = js_sort cmp_dex_quotes quotes;
           singleRoute = createSingleRoute (hd sortedQuotes) amountIn fromDecimals toDecimals
                           fromToken toToken;
           splitRoute = createSplitRoute
                          (calculateDynamicSplit sortedQuotes amountIn fromDecimals)
                          amountIn fromDecimals toDecimals fromToken toToken
       in findOptimalRoute quotes amountIn fromDecimals toDecimals fromToken toToken
            = Inr (if totalOutput splitRoute > totalOutput singleRoute * (1001 / 1000)
                   then splitRoute else singleRoute)
          \<and> isSplit splitRoute \<and> \<not> isSplit singleRoute
          \<and> totalOutput singleRoute
              = formatUnits (int (dq_amountOut (hd sortedQuotes))) toDecimals
          \<and> (\<forall>q\<in>set quotes. dq_amountOut q \<le> dq_amountOut (hd sortedQuotes))))
   \<and> (rquotes \<noteq> [] \<and> 100 \<le> formatUnits amountIn fromDecimals
       \<and> (\<forall>q\<in>set rquotes.
             rq_amountOutFormatted q = formatUnits (int (rq_amountOut q)) toDecimals) \<longrightarrow>
      (let sortedQuotes = js_sort cmp_route_outputs rquotes;
           single = singleResult (hd sortedQuotes);
           legs = routeNormalize (routeValidSplits sortedQuotes);
           split = \<lparr>sr_routes = legs,
                    sr_totalOutput = formatUnits (sum_list (map routeSplitAmountOut legs)) toDecimals,
                    sr_totalGas =
                      sum_list (map (\<lambda>(q, p). \<lfloor>of_nat (rq_estimatedGas q) * (p / 100)\<rfloor>) legs),
                    sr_avgPriceImpact =
                      sum_list (map (\<lambda>(q, p). rq_priceImpact q * (p / 100)) legs),
                    sr_isSplit = True\<rparr>
       in optimizeRouteSplit rquotes amountIn fromDecimals toDecimals
            = Inr (Some (if sr_totalOutput split > sr_totalOutput single * (1001 / 1000)
                         then split else single))
          \<and> \<not> sr_isSplit single
          \<and> sr_totalOutput single
              = formatUnits (int (rq_amountOut (hd sortedQuotes))) toDecimals
          \<and> (\<forall>q\<in>set rquotes. rq_amountOut q \<le> rq_amountOut (hd sortedQuotes))))"
proof (intro conjI impI)
  assume h: "quotes \<noteq> [] \<and> 100 \<le> formatUnits amountIn fromDecimals"
  let ?sq = "js_sort cmp_dex_quotes quotes"
  from h obtain b others where sq: "?sq = b # others"
    using length_js_sort [of cmp_dex_quotes quotes] by (cases ?sq) auto
  have best: "\<forall>q\<in>set quotes. dq_amountOut q \<le> dq_amountOut (hd ?sq)"
    by (rule hd_js_sort_best) (simp add: cmp_dex_quotes_def)
  from h venue_split_not_better [of quotes amountIn fromDecimals toDecimals fromToken toToken]
  have nb: "\<not> totalOutput (createSplitRoute (calculateDynamicSplit ?sq amountIn fromDecimals)
              amountIn fromDecimals toDecimals fromToken toToken)
           > totalOutput (createSingleRoute b amountIn fromDecimals toDecimals fromToken toToken)
               * (1001 / 1000)"
    unfolding sq splitThreshold_def by simp
  have res: "findOptimalRoute quotes amountIn fromDecimals toDecimals fromToken toToken
      = Inr (if totalOutput (createSplitRoute (calculateDynamicSplit ?sq amountIn fromDecimals)
                  amountIn fromDecimals toDecimals fromToken toToken)
                > totalOutput (createSingleRoute b amountIn fromDecimals toDecimals fromToken toToken)
                    * (1001 / 1000)
             then createSplitRoute (calculateDynamicSplit ?sq amountIn fromDecimals)
                    amountIn fromDecimals toDecimals fromToken toToken
             else createSingleRoute b amountIn fromDecimals toDecimals fromToken toToken)"
  proof (cases "length ?sq = 1")
    case True
    with h nb show ?thesis
      unfolding findOptimalRoute_def Let_def sq by simp
  next
    case False
    with h show ?thesis
      unfolding findOptimalRoute_def Let_def splitThreshold_def sq by (simp add: not_less)
  qed
  show "let sortedQuotes = js_sort cmp_dex_quotes quotes;
           singleRoute = createSingleRoute (hd sortedQuotes) amountIn fromDecimals toDecimals
                           fromToken toToken;
           splitRoute = createSplitRoute
                          (calculateDynamicSplit sortedQuotes amountIn fromDecimals)
                          amountIn fromDecimals toDecimals fromToken toToken
       in findOptimalRoute quotes amountIn fromDecimals toDecimals fromToken toToken
            = Inr (if totalOutput splitRoute > totalOutput singleRoute * (1001 / 1000)
                   then splitRoute else singleRoute)
          \<and> isSplit splitRoute \<and> \<not> isSplit singleRoute
          \<and> totalOutput singleRoute
              = formatUnits (int (dq_amountOut (hd sortedQuotes))) toDecimals
          \<and> (\<forall>q\<in>set quotes. dq_amountOut q \<le> dq_amountOut (hd sortedQuotes))"
    unfolding Let_def using res best
    by (simp add: sq createSplitRoute_def createSingleRoute_def)
next
  assume h: "rquotes \<noteq> [] \<and> 100 \<le> formatUnits amountIn fromDecimals
       \<and> (\<forall>q\<in>set rquotes.
             rq_amountOutFormatted q = formatUnits (int (rq_amountOut q)) toDecimals)"
  let ?sq = "js_sort cmp_route_outputs rquotes"
  let ?legs = "routeNormalize (routeValidSplits ?sq)"
  let ?split = "\<lparr>sr_routes = ?legs,
                    sr_totalOutput = formatUnits (sum_list (map routeSplitAmountOut ?legs)) toDecimals,
                    sr_totalGas =
                      sum_list (map (\<lambda>(q, p). \<lfloor>of_nat (rq_estimatedGas q) * (p / 100)\<rfloor>) ?legs),
                    sr_avgPriceImpact =
                      sum_list (map (\<lambda>(q, p). rq_priceImpact q * (p / 100)) ?legs),
                    sr_isSplit = True\<rparr>"
  from h obtain b others where sq: "?sq = b # others"
    using length_js_sort [of cmp_route_outputs rquotes] by (cases ?sq) auto
  have best: "\<forall>q\<in>set rquotes. rq_amountOut q \<le> rq_amountOut (hd ?sq)"
    by (rule hd_js_sort_best) (simp add: cmp_route_outputs_def)
  have "b \<in> set rquotes" using set_js_sort [of cmp_route_outputs rquotes] sq by auto
  with h have fmt: "rq_amountOutFormatted b = formatUnits (int (rq_amountOut b)) toDecimals"
    by simp
  from h route_split_not_better [of rquotes toDecimals]
  have nb: "\<not> formatUnits (sum_list (map routeSplitAmountOut ?legs)) toDecimals
                > rq_amountOutFormatted b * (1001 / 1000)"
    unfolding sq splitThreshold_def by simp
  have res: "optimizeRouteSplit rquotes amountIn fromDecimals toDecimals
      = Inr (Some (if sr_totalOutput ?split > rq_amountOutFormatted b * (1001 / 1000)
                   then ?split else singleResult b))"
  proof (cases "length ?sq = 1 \<or> length (routeValidSplits ?sq) \<le> 1")
    case True
    with h nb show ?thesis
      unfolding optimizeRouteSplit_def Let_def sq by auto
  next
    case False
    with h show ?thesis
      unfolding optimizeRouteSplit_def Let_def splitThreshold_def sq by (simp add: not_less)
  qed
  show "let sortedQuotes = js_sort cmp_route_outputs rquotes;
           single = singleResult (hd sortedQuotes);
           legs = routeNormalize (routeValidSplits sortedQuotes);
           split = \<lparr>sr_routes = legs,
                    sr_totalOutput = formatUnits (sum_list (map routeSplitAmountOut legs)) toDecimals,
                    sr_totalGas =
                      sum_list (map (\<lambda>(q, p). \<lfloor>of_nat (rq_estimatedGas q) * (p / 100)\<rfloor>) legs),
                    sr_avgPriceImpact =
                      sum_list (map (\<lambda>(q, p). rq_priceImpact q * (p / 100)) legs),
                    sr_isSplit = True\<rparr>
       in optimizeRouteSplit rquotes amountIn fromDecimals toDecimals
            = Inr (Some (if sr_totalOutput split > sr_totalOutput single * (1001 / 1000)
                         then split else single))
          \<and> \<not> sr_isSplit single
          \<and> sr_totalOutput single
              = formatUnits (int (rq_amountOut (hd sortedQuotes))) toDecimals
          \<and> (\<forall>q\<in>set rquotes. rq_amountOut q \<le> rq_amountOut (hd sortedQuotes))"
    unfolding Let_def using res best fmt
    by (simp add: sq singleResult_def)
qed


lemma sorted_two_venues:
  "js_sort cmp_dex_quotes [venue_quote ''uniswap_v2'' 1000, venue_quote ''sushiswap'' 1010]
     = [venue_quote ''sushiswap'' 1010, venue_quote ''uniswap_v2'' 1000]"
  by (simp add: cmp_dex_quotes_def venue_quote_def)

lemma sorted_two_routes:
  "js_sort cmp_route_outputs [route_quote_of route_ac_500 1000, route_quote_of route_ab_bc 1010]
     = [route_quote_of route_ab_bc 1010, route_quote_of route_ac_500 1000]"
  by (simp add: cmp_route_outputs_def route_quote_of_def)

theorem split_gate_witness:
  "findOptimalRoute [venue_quote ''uniswap_v2'' 1000, venue_quote ''sushiswap'' 1010] 100 0 0
       None None
     = Inr (createSingleRoute (venue_quote ''sushiswap'' 1010) 100 0 0 None None)
   \<and> optimizeRouteSplit [route_quote_of route_ac_500 1000, route_quote_of route_ab_bc 1010] 100 0 0
     = Inr (Some (singleResult (route_quote_of route_ab_bc 1010)))"
proof -
  have hv: "[venue_quote ''uniswap_v2'' 1000, venue_quote ''sushiswap'' 1010] \<noteq> []
            \<and> 100 \<le> formatUnits 100 0"
    by (simp add: formatUnits_def)
  have fmt: "\<forall>q\<in>set [route_quote_of route_ac_500 1000, route_quote_of route_ab_bc 1010].
               rq_amountOutFormatted q = formatUnits (int (rq_amountOut q)) 0"
    by (simp add: route_quote_of_def formatUnits_def)
  have hr: "[route_quote_of route_ac_500 1000, route_quote_of route_ab_bc 1010] \<noteq> []
            \<and> 100 \<le> formatUnits 100 0
            \<and> (\<forall>q\<in>set [route_quote_of route_ac_500 1000, route_quote_of route_ab_bc 1010].
               rq_amountOutFormatted q = formatUnits (int (rq_amountOut q)) 0)"
    using fmt by (simp add: formatUnits_def)
  note gate = split_gate [where quotes = "[venue_quote ''uniswap_v2'' 1000, venue_quote ''sushiswap'' 1010]"
      and rquotes = "[route_quote_of route_ac_500 1000, route_quote_of route_ab_bc 1010]"
      and amountIn = 100 and fromDecimals = 0 and toDecimals = 0
      and fromToken = None and toToken = None]
  have v: "\<not> totalOutput (createSplitRoute
              (calculateDynamicSplit
                 [venue_quote ''sushiswap'' 1010, venue_quote ''uniswap_v2'' 1000] 100 0)
              100 0 0 None None)
           > totalOutput (createSingleRoute (venue_quote ''sushiswap'' 1010) 100 0 0 None None)
               * (1001 / 1000)"
    using venue_split_not_better
            [of "[venue_quote ''uniswap_v2'' 1000, venue_quote ''sushiswap'' 1010]" 100 0 0 None None,
             OF list.distinct(2)]
    by (simp only: sorted_two_venues splitThreshold_def list.sel not_Cons_self2 simp_thms)
  have r: "\<not> formatUnits (sum_list (map routeSplitAmountOut
              (routeNormalize (routeValidSplits
                 [route_quote_of route_ab_bc 1010, route_quote_of route_ac_500 1000])))) 0
           > sr_totalOutput (singleResult (route_quote_of route_ab_bc 1010)) * (1001 / 1000)"
    using route_split_not_better
            [of "[route_quote_of route_ac_500 1000, route_quote_of route_ab_bc 1010]" 0,
             OF list.distinct(2) fmt]
    by (simp only: sorted_two_routes splitThreshold_def list.sel not_Cons_self2 simp_thms
          singleResult_def SplitResult.simps)
  from gate [THEN conjunct1, THEN mp, OF hv]
  have "findOptimalRoute [venue_quote ''uniswap_v2'' 1000, venue_quote ''sushiswap'' 1010] 100 0 0
          None None
        = Inr (createSingleRoute (venue_quote ''sushiswap'' 1010) 100 0 0 None None)"
    by (simp only: Let_def sorted_two_venues list.sel v if_False)
  moreover from gate [THEN conjunct2, THEN mp, OF hr]
  have "optimizeRouteSplit [route_quote_of route_ac_500 1000, route_quote_of route_ab_bc 1010] 100 0 0
        = Inr (Some (singleResult (route_quote_of route_ab_bc 1010)))"
    by (simp only: Let_def sorted_two_routes list.sel SplitResult.simps r if_False)
  ultimately show ?thesis by simp
qed







section \<open>The two split optimizers compared\<close>




















end
